theory Spec2Isabelle
  imports Complex_Main "HOL-Library.Log_Nat"
begin

section \<open>Python values\<close>

text \<open>
  The program is a single Python module, \<^verbatim>\<open>nutrinova_app.py\<close>. Every raise of the
  source is a value: a function that can raise returns \<open>py_error + 'a\<close>, with \<open>Inl\<close> the
  exception that leaves the function.

  \<open>LibraryException msg\<close> is an exception derived from \<^verbatim>\<open>Exception\<close> that a library call
  (\<^verbatim>\<open>requests.get\<close>, \<^verbatim>\<open>client.chat.completions.create\<close>) raised, with \<^verbatim>\<open>str(e) = msg\<close>;
  \<open>NonException msg\<close> is one derived from \<^verbatim>\<open>BaseException\<close> only (\<^verbatim>\<open>KeyboardInterrupt\<close>,
  \<^verbatim>\<open>SystemExit\<close>), which \<^verbatim>\<open>except Exception\<close> does not catch.
\<close>

datatype py_error =
    KeyError | TypeError | IndexError | OverflowError | ZeroDivisionError
  | JSONDecodeError | LibraryException string | NonException string

text \<open>What a call into a library can do instead of returning.\<close>

datatype call_failure = RaisesException string | RaisesNonException string

fun raised :: "call_failure \<Rightarrow> py_error" where
  "raised (RaisesException msg) = LibraryException msg"
| "raised (RaisesNonException msg) = NonException msg"

subsection \<open>Floats\<close>

text \<open>
  A Python \<^verbatim>\<open>float\<close> is an IEEE 754 binary64 number. A finite one is modelled by the
  rational number it denotes (the two zeros are identified: they compare equal);
  \<open>NonFinite\<close> stands for an infinity or a NaN. Every arithmetic operation is the exact
  operation on the rationals followed by \<open>fl\<close>, rounding to the nearest binary64 number,
  ties to the even significand: 53 bits of precision, exponents from \<open>-1022\<close> to
  \<open>1023\<close>, gradual underflow below, and an infinity when the rounded value reaches
  \<open>2 ^ 1024\<close>.
\<close>

datatype pyfloat = Finite rat | NonFinite

definition round_half_even :: "rat \<Rightarrow> int" where
  "round_half_even q =
     (let f = \<lfloor>q\<rfloor>; r = q - of_int f
      in if r < 1 / 2 then f
         else if 1 / 2 < r then f + 1
         else if even f then f else f + 1)"

text \<open>Rounding to the nearest integer with ties upwards.\<close>

definition round_half_up :: "rat \<Rightarrow> int" where
  "round_half_up q = \<lfloor>q + 1 / 2\<rfloor>"

text \<open>The exponent of a positive rational: \<open>2 ^ ilog2 q \<le> q < 2 ^ (ilog2 q + 1)\<close>.\<close>

definition ilog2 :: "rat \<Rightarrow> int" where
  "ilog2 q =
     (let (p, d) = quotient_of q; k = bitlen p - bitlen d
      in if q < power_int 2 k then k - 1 else k)"

definition fl :: "rat \<Rightarrow> pyfloat" where
  "fl q =
     (if q = 0 then Finite 0
      else let e = max (ilog2 \<bar>q\<bar>) (- 1022);
               u = power_int 2 (e - 52);
               r = of_int (round_half_even (q / u)) * u
           in if power_int 2 1024 \<le> \<bar>r\<bar> then NonFinite else Finite r)"

text \<open>
  \<^verbatim>\<open>a * b\<close> on two floats. A product with an infinity or a NaN is an infinity or a NaN.
\<close>

fun float_mul :: "pyfloat \<Rightarrow> pyfloat \<Rightarrow> pyfloat" where
  "float_mul (Finite a) (Finite b) = fl (a * b)"
| "float_mul _ _ = NonFinite"

text \<open>
  The numbers the estimator is called with: an \<^verbatim>\<open>int\<close> (what the bounded numeric inputs
  of the Exercise Tracker return) or a \<^verbatim>\<open>float\<close>.
\<close>

datatype pynum = PyInt int | PyFloat pyfloat

text \<open>
  The operand conversion of float arithmetic: an \<^verbatim>\<open>int\<close> is converted to the nearest
  float, and one too large for a float raises \<^verbatim>\<open>OverflowError\<close>.
\<close>

fun as_double :: "pynum \<Rightarrow> py_error + pyfloat" where
  "as_double (PyFloat x) = Inr x"
| "as_double (PyInt i) =
     (case fl (of_int i) of NonFinite \<Rightarrow> Inl OverflowError | Finite r \<Rightarrow> Inr (Finite r))"

text \<open>\<^verbatim>\<open>a * n\<close> for a float \<open>a\<close> and a number \<open>n\<close>.\<close>

definition float_mul_num :: "pyfloat \<Rightarrow> pynum \<Rightarrow> py_error + pyfloat" where
  "float_mul_num a n =
     (case as_double n of Inl e \<Rightarrow> Inl e | Inr b \<Rightarrow> Inr (float_mul a b))"

text \<open>\<^verbatim>\<open>a / i\<close> for a float \<open>a\<close> and an \<^verbatim>\<open>int\<close> \<open>i\<close>.\<close>

definition float_div_int :: "pyfloat \<Rightarrow> int \<Rightarrow> py_error + pyfloat" where
  "float_div_int a i =
     (case fl (of_int i) of
        NonFinite \<Rightarrow> Inl OverflowError
      | Finite b \<Rightarrow>
          if b = 0 then Inl ZeroDivisionError
          else Inr (case a of Finite x \<Rightarrow> fl (x / b) | NonFinite \<Rightarrow> NonFinite))"

text \<open>
  \<^verbatim>\<open>round(x, 2)\<close> on a float: the exact value of \<open>x\<close> is rounded to two decimals, ties to
  the even last digit, and the decimal result is converted back to the nearest float.
  An infinity or a NaN rounds to itself.
\<close>

fun py_round2 :: "pyfloat \<Rightarrow> pyfloat" where
  "py_round2 (Finite x) = fl (of_int (round_half_even (x * 100)) / 100)"
| "py_round2 NonFinite = NonFinite"

text \<open>The value of a number as a rational, and whether it is in a closed range.\<close>

fun num_value :: "pynum \<Rightarrow> rat" where
  "num_value (PyInt i) = of_int i"
| "num_value (PyFloat (Finite r)) = r"
| "num_value (PyFloat NonFinite) = 0"

fun num_between :: "rat \<Rightarrow> rat \<Rightarrow> pynum \<Rightarrow> bool" where
  "num_between lo hi (PyFloat NonFinite) = False"
| "num_between lo hi n = (lo \<le> num_value n \<and> num_value n \<le> hi)"

subsection \<open>JSON values\<close>

text \<open>
  What \<^verbatim>\<open>response.json()\<close> returns: \<^verbatim>\<open>None\<close>, a \<^verbatim>\<open>bool\<close>, a number, a \<^verbatim>\<open>str\<close>, a
  \<^verbatim>\<open>list\<close> or a \<^verbatim>\<open>dict\<close> with string keys. A dict is the list of its items in insertion
  order; a parsed dict has no key twice, and a lookup takes the first item of a key.
  Numbers are finite.
\<close>

datatype json =
    JNull | JBool bool | JNum rat | JStr string | JArr "json list" | JObj "(string \<times> json) list"

text \<open>\<^verbatim>\<open>len(v)\<close>.\<close>

fun py_len :: "json \<Rightarrow> py_error + nat" where
  "py_len (JArr xs) = Inr (length xs)"
| "py_len (JStr s) = Inr (length s)"
| "py_len (JObj kvs) = Inr (length kvs)"
| "py_len _ = Inl TypeError"

text \<open>\<^verbatim>\<open>bool(v)\<close>, the truth value that \<^verbatim>\<open>if v:\<close> tests.\<close>

fun py_truthy :: "json \<Rightarrow> bool" where
  "py_truthy JNull = False"
| "py_truthy (JBool b) = b"
| "py_truthy (JNum r) = (r \<noteq> 0)"
| "py_truthy (JStr s) = (s \<noteq> [])"
| "py_truthy (JArr xs) = (xs \<noteq> [])"
| "py_truthy (JObj kvs) = (kvs \<noteq> [])"

text \<open>\<^verbatim>\<open>needle in hay\<close> on two strings: \<open>needle\<close> occurs in \<open>hay\<close>.\<close>

fun py_str_contains :: "string \<Rightarrow> string \<Rightarrow> bool" where
  "py_str_contains needle [] = (needle = [])"
| "py_str_contains needle (c # cs) =
     (take (length needle) (c # cs) = needle \<or> py_str_contains needle cs)"

text \<open>
  \<^verbatim>\<open>key in v\<close> for a string \<open>key\<close>: a key of a dict, an element of a list, a substring of
  a string; \<^verbatim>\<open>TypeError\<close> on a value that is not a container.
\<close>

fun py_contains :: "string \<Rightarrow> json \<Rightarrow> py_error + bool" where
  "py_contains key (JObj kvs) = Inr (key \<in> set (map fst kvs))"
| "py_contains key (JArr xs) = Inr (JStr key \<in> set xs)"
| "py_contains key (JStr s) = Inr (py_str_contains key s)"
| "py_contains key _ = Inl TypeError"

text \<open>
  \<^verbatim>\<open>v[key]\<close> for a string \<open>key\<close>: \<^verbatim>\<open>KeyError\<close> on a dict without the key, \<^verbatim>\<open>TypeError\<close>
  on every value that is not a dict.
\<close>

fun py_getitem :: "json \<Rightarrow> string \<Rightarrow> py_error + json" where
  "py_getitem (JObj kvs) key =
     (case map_of kvs key of None \<Rightarrow> Inl KeyError | Some v \<Rightarrow> Inr v)"
| "py_getitem _ key = Inl TypeError"

text \<open>
  \<^verbatim>\<open>v[:5]\<close>: the first five elements of a list or characters of a string, \<^verbatim>\<open>TypeError\<close>
  otherwise.
\<close>

fun py_slice5 :: "json \<Rightarrow> py_error + json" where
  "py_slice5 (JArr xs) = Inr (JArr (take 5 xs))"
| "py_slice5 (JStr s) = Inr (JStr (take 5 s))"
| "py_slice5 _ = Inl TypeError"

text \<open>
  The elements a \<^verbatim>\<open>for\<close> loop over \<open>v\<close> visits: the elements of a list, the characters of
  a string (strings of length one), the keys of a dict.
\<close>

fun py_iter :: "json \<Rightarrow> py_error + json list" where
  "py_iter (JArr xs) = Inr xs"
| "py_iter (JStr s) = Inr (map (\<lambda>c. JStr [c]) s)"
| "py_iter (JObj kvs) = Inr (map (\<lambda>kv. JStr (fst kv)) kvs)"
| "py_iter _ = Inl TypeError"

subsection \<open>Dicts built by the program\<close>

text \<open>
  A dict that the program builds has JSON values as keys. It is the list of its items in
  insertion order. Lists and dicts are not hashable; \<open>py_key_eq\<close> is \<^verbatim>\<open>==\<close> on the
  hashable values, where \<^verbatim>\<open>True == 1\<close> and \<^verbatim>\<open>False == 0\<close>.
\<close>

type_synonym py_dict = "(json \<times> json) list"

fun py_hashable :: "json \<Rightarrow> bool" where
  "py_hashable (JArr xs) = False"
| "py_hashable (JObj kvs) = False"
| "py_hashable _ = True"

fun py_key_eq :: "json \<Rightarrow> json \<Rightarrow> bool" where
  "py_key_eq JNull JNull = True"
| "py_key_eq (JBool a) (JBool b) = (a = b)"
| "py_key_eq (JBool a) (JNum r) = (r = (if a then 1 else 0))"
| "py_key_eq (JNum r) (JBool a) = (r = (if a then 1 else 0))"
| "py_key_eq (JNum r) (JNum s) = (r = s)"
| "py_key_eq (JStr s) (JStr t) = (s = t)"
| "py_key_eq _ _ = False"

text \<open>
  \<^verbatim>\<open>d[k] = v\<close>: a key already in the dict keeps its place and its first spelling and
  takes the new value; a new key is appended.
\<close>

fun py_dict_set :: "py_dict \<Rightarrow> json \<Rightarrow> json \<Rightarrow> py_dict" where
  "py_dict_set [] k v = [(k, v)]"
| "py_dict_set ((k', v') # d) k v =
     (if py_key_eq k' k then (k', v) # d else (k', v') # py_dict_set d k v)"

text \<open>
  \<^verbatim>\<open>d[k]\<close> on such a dict: \<^verbatim>\<open>KeyError\<close> when the key is not in it, \<^verbatim>\<open>TypeError\<close> when the
  key is not hashable (it equals no key of the dict).
\<close>

fun py_dict_get :: "py_dict \<Rightarrow> json \<Rightarrow> py_error + json" where
  "py_dict_get [] k = (if py_hashable k then Inl KeyError else Inl TypeError)"
| "py_dict_get ((k', v') # d) k = (if py_key_eq k' k then Inr v' else py_dict_get d k)"

text \<open>
  The dict comprehension \<^verbatim>\<open>{key(n): value(n) for n in items}\<close>, run on the dict built so
  far: for each element the key expression, then the value expression, then the
  insertion, which raises \<^verbatim>\<open>TypeError\<close> on an unhashable key.
\<close>

fun dict_comprehension ::
  "(json \<Rightarrow> py_error + json) \<Rightarrow> (json \<Rightarrow> py_error + json) \<Rightarrow> json list \<Rightarrow> py_dict
     \<Rightarrow> py_error + py_dict" where
  "dict_comprehension key val [] acc = Inr acc"
| "dict_comprehension key val (n # ns) acc =
     (case key n of
        Inl e \<Rightarrow> Inl e
      | Inr k \<Rightarrow>
          (case val n of
             Inl e \<Rightarrow> Inl e
           | Inr v \<Rightarrow>
               if py_hashable k then dict_comprehension key val ns (py_dict_set acc k v)
               else Inl TypeError))"

section \<open>The exercise energy table and the calorie estimator\<close>

text \<open>
  \<^verbatim>\<open>EXERCISE_MET\<close>, a module-level dict. \<open>MET_LITERALS\<close> are the decimal literals of the
  source text; the dict holds the floats they denote.
\<close>

definition MET_LITERALS :: "(string \<times> rat) list" where
  "MET_LITERALS =
     [(''Running (6 mph)'', 98 / 10),
      (''Cycling (moderate)'', 75 / 10),
      (''Walking (brisk)'', 38 / 10),
      (''Swimming'', 60 / 10),
      (''Yoga'', 25 / 10),
      (''Weightlifting'', 60 / 10)]"

definition EXERCISE_MET :: "(string \<times> pyfloat) list" where
  "EXERCISE_MET = map (\<lambda>kv. (fst kv, fl (snd kv))) MET_LITERALS"

text \<open>
  The module state that \<^verbatim>\<open>calculate_calories_burned\<close> can see: the table. The function
  takes the state and returns it with its result, so that a write would show.
\<close>

record module_state =
  exercise_met :: "(string \<times> pyfloat) list"

definition initial_state :: module_state where
  "initial_state = \<lparr>exercise_met = EXERCISE_MET\<rparr>"

text \<open>
  \<^verbatim>\<open>
  def calculate_calories_burned(weight_kg, exercise, duration_min):
      if exercise not in EXERCISE_MET:
          return 0
      met = EXERCISE_MET[exercise]
      calories = met * 3.5 * weight_kg / 200 * duration_min
      return round(calories, 2)
  \<close>
  The product is evaluated from the left: \<^verbatim>\<open>(((met * 3.5) * weight_kg) / 200) * duration_min\<close>.
\<close>

definition calculate_calories_burned ::
  "module_state \<Rightarrow> pynum \<Rightarrow> string \<Rightarrow> pynum \<Rightarrow> (py_error + pynum) \<times> module_state" where
  "calculate_calories_burned s weight_kg exercise duration_min =
     (case map_of (exercise_met s) exercise of
        None \<Rightarrow> (Inr (PyInt 0), s)
      | Some met \<Rightarrow>
          (case float_mul_num (float_mul met (fl (35 / 10))) weight_kg of
             Inl e \<Rightarrow> (Inl e, s)
           | Inr a \<Rightarrow>
               (case float_div_int a 200 of
                  Inl e \<Rightarrow> (Inl e, s)
                | Inr b \<Rightarrow>
                    (case float_mul_num b duration_min of
                       Inl e \<Rightarrow> (Inl e, s)
                     | Inr calories \<Rightarrow> (Inr (PyFloat (py_round2 calories)), s)))))"

text \<open>
  The estimate as the specification words it (section 4.2), to compare with the code:
  the product \<^verbatim>\<open>met * 3.5 * weightKg / 200 * durationMin\<close> in exact arithmetic, rounded to
  two decimals by a standard rounding \<open>rounding\<close>, half-even or half-up.
\<close>

definition spec_estimate :: "(rat \<Rightarrow> int) \<Rightarrow> rat \<Rightarrow> rat \<Rightarrow> rat \<Rightarrow> rat" where
  "spec_estimate rounding met weightKg durationMin =
     of_int (rounding (met * (35 / 10) * weightKg / 200 * durationMin * 100)) / 100"

section \<open>The food lookup client\<close>

text \<open>
  The response of \<^verbatim>\<open>requests.get\<close>: its status code and what \<^verbatim>\<open>response.json()\<close> gives,
  \<open>None\<close> when the body is not JSON and the call raises.
\<close>

record http_response =
  status_code :: int
  json_body :: "json option"

text \<open>
  \<^verbatim>\<open>
  def search_food_usda(query):
      url = f"https://api.nal.usda.gov/fdc/v1/foods/search?query={query}&api_key={USDA_API_KEY}"
      response = requests.get(url)
      if response.status_code == 200:
          data = response.json()
          if "foods" in data and len(data["foods"]) > 0:
              return data["foods"]
      return []
  \<close>
  \<open>usda_api_key\<close> is the module-level \<^verbatim>\<open>USDA_API_KEY\<close>, \<^verbatim>\<open>None\<close> when the environment variable
  is not set; \<open>requests_get\<close> is the network. The function returns its result and the
  URLs it requested.
\<close>

definition usda_url :: "string option \<Rightarrow> string \<Rightarrow> string" where
  "usda_url usda_api_key query =
     ''https://api.nal.usda.gov/fdc/v1/foods/search?query='' @ query @ ''&api_key=''
       @ (case usda_api_key of None \<Rightarrow> ''None'' | Some k \<Rightarrow> k)"

definition foods_of_response :: "http_response \<Rightarrow> py_error + json" where
  "foods_of_response response =
     (if status_code response = 200 then
        (case json_body response of
           None \<Rightarrow> Inl JSONDecodeError
         | Some data \<Rightarrow>
             (case py_contains ''foods'' data of
                Inl e \<Rightarrow> Inl e
              | Inr False \<Rightarrow> Inr (JArr [])
              | Inr True \<Rightarrow>
                  (case py_getitem data ''foods'' of
                     Inl e \<Rightarrow> Inl e
                   | Inr foods \<Rightarrow>
                       (case py_len foods of
                          Inl e \<Rightarrow> Inl e
                        | Inr n \<Rightarrow> if 0 < n then py_getitem data ''foods'' else Inr (JArr [])))))
      else Inr (JArr []))"

definition search_food_usda ::
  "string option \<Rightarrow> (string \<Rightarrow> call_failure + http_response) \<Rightarrow> string
     \<Rightarrow> (py_error + json) \<times> string list" where
  "search_food_usda usda_api_key requests_get query =
     (let url = usda_url usda_api_key query
      in (case requests_get url of
            Inl f \<Rightarrow> (Inl (raised f), [url])
          | Inr response \<Rightarrow> (foods_of_response response, [url])))"

section \<open>The narrative insight generator\<close>

text \<open>
  The request that \<^verbatim>\<open>get_ai_insight\<close> sends, and the completion service: it raises, or
  returns a response, of which the function reads \<^verbatim>\<open>choices[i].message.content\<close>, a string
  or \<^verbatim>\<open>None\<close>.
\<close>

record chat_request =
  model :: string
  messages :: "(string \<times> string) list"
  temperature :: rat
  max_tokens :: nat

type_synonym chat_response = "string option list"

text \<open>
  \<^verbatim>\<open>
  def get_ai_insight(prompt):
      try:
          response = client.chat.completions.create(
              model="gpt-4o-mini",
              messages=[
                  {"role": "system", "content": "You are a helpful nutrition and fitness assistant."},
                  {"role": "user", "content": prompt}
              ],
              temperature=0.7,
              max_tokens=500
          )
          return response.choices[0].message.content
      except Exception as e:
          return f"AI API Error: {e}"
  \<close>
\<close>

definition insight_request :: "string \<Rightarrow> chat_request" where
  "insight_request prompt =
     \<lparr>model = ''gpt-4o-mini'',
      messages =
        [(''system'', ''You are a helpful nutrition and fitness assistant.''),
         (''user'', prompt)],
      temperature = 7 / 10,
      max_tokens = 500\<rparr>"

definition get_ai_insight ::
  "(chat_request \<Rightarrow> call_failure + chat_response) \<Rightarrow> string \<Rightarrow> py_error + string option" where
  "get_ai_insight create prompt =
     (case create (insight_request prompt) of
        Inl (RaisesException msg) \<Rightarrow> Inr (Some (''AI API Error: '' @ msg))
      | Inl (RaisesNonException msg) \<Rightarrow> Inl (NonException msg)
      | Inr choices \<Rightarrow>
          (case choices of
             [] \<Rightarrow> Inr (Some (''AI API Error: '' @ ''list index out of range''))
           | content # _ \<Rightarrow> Inr content))"

section \<open>The Food Insights tab\<close>

text \<open>
  The nutrient extraction of the tab:
  \<^verbatim>\<open>nutrients = {n["nutrientName"]: n["value"] for n in food_data["foodNutrients"][:5]}\<close>
\<close>

definition extract_nutrients :: "json \<Rightarrow> py_error + py_dict" where
  "extract_nutrients food_data =
     (case py_getitem food_data ''foodNutrients'' of
        Inl e \<Rightarrow> Inl e
      | Inr ns \<Rightarrow>
          (case py_slice5 ns of
             Inl e \<Rightarrow> Inl e
           | Inr first5 \<Rightarrow>
               (case py_iter first5 of
                  Inl e \<Rightarrow> Inl e
                | Inr items \<Rightarrow>
                    dict_comprehension
                      (\<lambda>n. py_getitem n ''nutrientName'') (\<lambda>n. py_getitem n ''value'') items [])))"

text \<open>
  What the tab does, in order: the requests it sends and the widgets it shows. The
  widgets and the chart are library calls (Streamlit, pandas, Plotly); the model records
  each call that shows data with its arguments, a formatted message by the values
  formatted into it. The two fixed headings of the tab are left out. \<open>PlotNutrition\<close> is
  the chart on the page.
\<close>

datatype ui_event =
    HttpGet string
  | ChatCompletion chat_request
  | StSuccess nat string
  | StSelectbox "json list"
  | StJson py_dict
  | StWrite "string option"
  | PlotNutrition json py_dict
  | StError string

text \<open>
  The surroundings of one run of the tab: the configuration, the two services, what
  the user typed and chose, and how Python formats a value into the prompt.

  \<open>plot_nutrition\<close> is what lines 132 and 133 do with the selected food and its nutrients,
  inside pandas and Plotly: \<^verbatim>\<open>pd.DataFrame(...).reset_index().rename(...)\<close>, then
  \<^verbatim>\<open>plot_nutrition(df)\<close> with its \<^verbatim>\<open>melt\<close> and the chart. The calls return, or one of them
  raises: with a nutrient named \<^verbatim>\<open>Food\<close>, for one, the run ends with a \<^verbatim>\<open>ValueError\<close>.
\<close>

record environment =
  usda_api_key :: "string option"
  requests_get :: "string \<Rightarrow> call_failure + http_response"
  chat_create :: "chat_request \<Rightarrow> call_failure + chat_response"
  text_input :: string
  selectbox :: "json list \<Rightarrow> json option"
  format_value :: "json \<Rightarrow> string"
  format_dict :: "py_dict \<Rightarrow> string"
  plot_nutrition :: "json \<Rightarrow> py_dict \<Rightarrow> call_failure option"

text \<open>
  The body of \<^verbatim>\<open>if selected_food:\<close>, lines 118 to 133 of the source.
\<close>

definition show_food ::
  "environment \<Rightarrow> py_dict \<Rightarrow> json \<Rightarrow> ui_event list \<times> py_error option" where
  "show_food env food_choices selected_food =
     (case py_dict_get food_choices selected_food of
        Inl e \<Rightarrow> ([], Some e)
      | Inr food_data \<Rightarrow>
          (case extract_nutrients food_data of
             Inl e \<Rightarrow> ([], Some e)
           | Inr nutrients \<Rightarrow>
               (let user_prompt =
                      ''Give me a quick analysis of '' @ format_value env selected_food
                        @ '' with these nutrients: '' @ format_dict env nutrients;
                    shown = [StJson nutrients, ChatCompletion (insight_request user_prompt)]
                in (case get_ai_insight (chat_create env) user_prompt of
                      Inl e \<Rightarrow> (shown, Some e)
                    | Inr ai_response \<Rightarrow>
                        (case plot_nutrition env selected_food nutrients of
                           Some f \<Rightarrow> (shown @ [StWrite ai_response], Some (raised f))
                         | None \<Rightarrow>
                             (shown @ [StWrite ai_response, PlotNutrition selected_food nutrients],
                              None))))))"

text \<open>
  \<^verbatim>\<open>
  food_query = st.text_input("Enter a food item:", "")
  if food_query:
      foods = search_food_usda(food_query)
      if foods:
          st.success(f"Found {len(foods)} results for **{food_query}**")
          food_choices = {f["description"]: f for f in foods}
          selected_food = st.selectbox("Select a food:", list(food_choices.keys()))
          if selected_food:
              ...
      else:
          st.error("No results found. Try another food name.")
  \<close>
  The result is the trace of the run and the exception that ended it, if any.
\<close>

definition food_tab :: "environment \<Rightarrow> ui_event list \<times> py_error option" where
  "food_tab env =
     (let food_query = text_input env
      in if food_query \<noteq> [] then
           (case search_food_usda (usda_api_key env) (requests_get env) food_query of
              (Inl e, urls) \<Rightarrow> (map HttpGet urls, Some e)
            | (Inr foods, urls) \<Rightarrow>
                if py_truthy foods then
                  (case py_len foods of
                     Inl e \<Rightarrow> (map HttpGet urls, Some e)
                   | Inr n \<Rightarrow>
                       (case py_iter foods of
                          Inl e \<Rightarrow> (map HttpGet urls @ [StSuccess n food_query], Some e)
                        | Inr fs \<Rightarrow>
                            (case dict_comprehension
                                    (\<lambda>f. py_getitem f ''description'') (\<lambda>f. Inr f) fs [] of
                               Inl e \<Rightarrow> (map HttpGet urls @ [StSuccess n food_query], Some e)
                             | Inr food_choices \<Rightarrow>
                                 (let shown = map HttpGet urls
                                        @ [StSuccess n food_query, StSelectbox (map fst food_choices)]
                                  in (case selectbox env (map fst food_choices) of
                                        None \<Rightarrow> (shown, None)
                                      | Some selected_food \<Rightarrow>
                                          if py_truthy selected_food then
                                            (case show_food env food_choices selected_food of
                                               (evs, err) \<Rightarrow> (shown @ evs, err))
                                          else (shown, None))))))
                else (map HttpGet urls @ [StError ''No results found. Try another food name.''], None))
         else ([], None))"

section \<open>Food records\<close>

text \<open>
  A nutrient entry as the food database sends it has a string \<^verbatim>\<open>nutrientName\<close> and a
  \<^verbatim>\<open>value\<close>, among other fields. \<open>entry_name\<close> and \<open>entry_value\<close> read the two fields of
  such an entry.
\<close>

fun well_formed_entry :: "json \<Rightarrow> bool" where
  "well_formed_entry (JObj kvs) =
     (case map_of kvs ''nutrientName'' of
        Some (JStr s) \<Rightarrow> map_of kvs ''value'' \<noteq> None
      | _ \<Rightarrow> False)"
| "well_formed_entry _ = False"

fun entry_name :: "json \<Rightarrow> string" where
  "entry_name (JObj kvs) = (case map_of kvs ''nutrientName'' of Some (JStr s) \<Rightarrow> s | _ \<Rightarrow> [])"
| "entry_name _ = []"

fun entry_value :: "json \<Rightarrow> json" where
  "entry_value (JObj kvs) = (case map_of kvs ''value'' of Some v \<Rightarrow> v | None \<Rightarrow> JNull)"
| "entry_value _ = JNull"

text \<open>Storing one entry in a dict under its name, and a list without its repetitions.\<close>

definition insert_entry :: "py_dict \<Rightarrow> json \<Rightarrow> py_dict" where
  "insert_entry d n = py_dict_set d (JStr (entry_name n)) (entry_value n)"

definition first_occurrences :: "'a list \<Rightarrow> 'a list" where
  "first_occurrences xs = rev (remdups (rev xs))"

text \<open>
  Two food records in the shape of the database's answers, with six nutrient entries
  each; the second lists its energy twice, in kilocalories and in kilojoules, under one
  name.
\<close>

definition nutrient :: "string \<Rightarrow> rat \<Rightarrow> string \<Rightarrow> json" where
  "nutrient name amount unit =
     JObj [(''nutrientName'', JStr name), (''unitName'', JStr unit), (''value'', JNum amount)]"

definition oats_nutrients :: "json list" where
  "oats_nutrients =
     [nutrient ''Protein'' (169 / 10) ''G'',
      nutrient ''Total lipid (fat)'' (69 / 10) ''G'',
      nutrient ''Carbohydrate, by difference'' (663 / 10) ''G'',
      nutrient ''Energy'' 389 ''KCAL'',
      nutrient ''Fiber, total dietary'' (106 / 10) ''G'',
      nutrient ''Iron, Fe'' (47 / 10) ''MG'']"

definition oats :: json where
  "oats = JObj [(''description'', JStr ''Oats, raw''), (''foodNutrients'', JArr oats_nutrients)]"

definition banana_nutrients :: "json list" where
  "banana_nutrients =
     [nutrient ''Protein'' (109 / 100) ''G'',
      nutrient ''Energy'' 89 ''KCAL'',
      nutrient ''Total lipid (fat)'' (33 / 100) ''G'',
      nutrient ''Energy'' 371 ''kJ'',
      nutrient ''Carbohydrate, by difference'' (228 / 10) ''G'',
      nutrient ''Fiber, total dietary'' (26 / 10) ''G'']"

definition banana :: json where
  "banana =
     JObj [(''description'', JStr ''Bananas, raw''), (''foodNutrients'', JArr banana_nutrients)]"

text \<open>
  A run of the tab in which the user has typed \<open>typed\<close>, no API key is configured, the
  food database is out of reach and the completion service refuses the credential.
\<close>

definition unreachable_environment :: "string \<Rightarrow> environment" where
  "unreachable_environment typed =
     \<lparr>usda_api_key = None,
      requests_get = (\<lambda>url. Inl (RaisesException ''Connection refused'')),
      chat_create = (\<lambda>request. Inl (RaisesException ''Incorrect API key provided'')),
      text_input = typed,
      selectbox = (\<lambda>options. case options of [] \<Rightarrow> None | first # _ \<Rightarrow> Some first),
      format_value = (\<lambda>v. []),
      format_dict = (\<lambda>d. []),
      plot_nutrition = (\<lambda>food nutrients. None)\<rparr>"

section \<open>Rounding to a float\<close>

lemma bitlen_powi_bounds:
  assumes "0 < (x::int)"
  shows "power_int 2 (bitlen x - 1) \<le> (of_int x :: rat)"
    and "(of_int x :: rat) < power_int 2 (bitlen x)"
proof -
  have b: "1 \<le> bitlen x"
    using assms bitlen_eq_zero_iff [of x] bitlen_nonneg [of x] by linarith
  from bitlen_bounds [OF assms]
  have lo: "(2::int) ^ nat (bitlen x - 1) \<le> x" and hi: "x < 2 ^ nat (bitlen x)"
    by simp_all
  have "(of_int ((2::int) ^ nat (bitlen x - 1)) :: rat) \<le> of_int x"
    using lo by (simp only: of_int_le_iff)
  then show "power_int 2 (bitlen x - 1) \<le> (of_int x :: rat)"
    using b by (simp add: power_int_def)
  have "(of_int x :: rat) < of_int ((2::int) ^ nat (bitlen x))"
    using hi by (simp only: of_int_less_iff)
  then show "(of_int x :: rat) < power_int 2 (bitlen x)"
    using b by (simp add: power_int_def)
qed

section \<open>The calorie estimator: the fallback\<close>

text \<open>
  Claim C2. For every exercise name that is not a key of the energy table, and for
  every weight and duration, the calorie estimator returns the integer 0: a result, not
  an exception. The table is left as it was.
\<close>

theorem unknown_exercise_returns_zero:
  assumes "exercise \<notin> set (map fst EXERCISE_MET)"
  shows "calculate_calories_burned initial_state weight_kg exercise duration_min
           = (Inr (PyInt 0), initial_state)"
proof -
  have "map_of (exercise_met initial_state) exercise = None"
    using assms by (simp add: initial_state_def map_of_eq_None_iff)
  then show ?thesis
    by (simp add: calculate_calories_burned_def)
qed

theorem unknown_exercise_returns_zero_witness:
  "''Unknown Sport'' \<notin> set (map fst EXERCISE_MET)
   \<and> calculate_calories_burned initial_state (PyInt 70) ''Unknown Sport'' (PyInt 30)
       = (Inr (PyInt 0), initial_state)"
proof -
  have h: "''Unknown Sport'' \<notin> set (map fst EXERCISE_MET)"
    by (simp add: EXERCISE_MET_def MET_LITERALS_def)
  show ?thesis
    using h unknown_exercise_returns_zero [OF h, of "PyInt 70" "PyInt 30"] by simp
qed

section \<open>The food lookup client\<close>

text \<open>What the lookup makes of a response that it handles.\<close>

lemma foods_of_response_not_200:
  "status_code response \<noteq> 200 \<Longrightarrow> foods_of_response response = Inr (JArr [])"
  by (simp add: foods_of_response_def)

lemma foods_of_response_found:
  assumes "status_code response = 200" and "json_body response = Some (JObj kvs)"
    and "map_of kvs ''foods'' = Some (JArr (f # fs))"
  shows "foods_of_response response = Inr (JArr (f # fs))"
proof -
  have "''foods'' \<in> fst ` set kvs"
    using map_of_SomeD [OF assms(3)] by (simp add: rev_image_eqI)
  then show ?thesis
    using assms by (simp add: foods_of_response_def)
qed

lemma foods_of_response_no_key:
  assumes "status_code response = 200" and "json_body response = Some (JObj kvs)"
    and "map_of kvs ''foods'' = None"
  shows "foods_of_response response = Inr (JArr [])"
proof -
  have "''foods'' \<notin> fst ` set kvs"
    using assms(3) by (simp add: map_of_eq_None_iff)
  then show ?thesis
    using assms by (simp add: foods_of_response_def)
qed

lemma foods_of_response_empty:
  assumes "status_code response = 200" and "json_body response = Some (JObj kvs)"
    and "map_of kvs ''foods'' = Some (JArr [])"
  shows "foods_of_response response = Inr (JArr [])"
proof -
  have "''foods'' \<in> fst ` set kvs"
    using map_of_SomeD [OF assms(3)] by (simp add: rev_image_eqI)
  then show ?thesis
    using assms by (simp add: foods_of_response_def)
qed

text \<open>
  Claim C3. The food lookup is to return the \<^verbatim>\<open>foods\<close> array of a response with status
  200 and a JSON body that holds a non-empty one, and an empty sequence, without raising,
  for every other response: a status other than 200, a malformed body, an empty array.
  The code does so except on a malformed body of a response with status 200: a body that
  is not JSON raises \<^verbatim>\<open>JSONDecodeError\<close>, and a JSON body that is not a container (the
  number 5), or whose \<^verbatim>\<open>foods\<close> has no length (\<^verbatim>\<open>null\<close>), raises \<^verbatim>\<open>TypeError\<close>.
\<close>

theorem search_malformed_body_raises:
  "search_food_usda key (\<lambda>url. Inr \<lparr>status_code = 200, json_body = None\<rparr>) ''banana''
     = (Inl JSONDecodeError, [usda_url key ''banana''])
   \<and> search_food_usda key (\<lambda>url. Inr \<lparr>status_code = 200, json_body = Some (JNum 5)\<rparr>) ''banana''
     = (Inl TypeError, [usda_url key ''banana''])
   \<and> search_food_usda key
         (\<lambda>url. Inr \<lparr>status_code = 200, json_body = Some (JObj [(''foods'', JNull)])\<rparr>) ''banana''
     = (Inl TypeError, [usda_url key ''banana''])"
  by (simp add: search_food_usda_def foods_of_response_def Let_def)

section \<open>The narrative insight generator\<close>

text \<open>
  Claim C4. For every prompt, the narrative insight generator does not raise when the
  completion call returns or fails with an exception (network, credential, quota,
  malformed response): a failure with cause \<open>msg\<close> gives the string
  \<^verbatim>\<open>AI API Error: \<close> followed by \<open>msg\<close>, a response without choices gives a string with that
  prefix too, and otherwise the result is the generated text, the content of the first
  choice.
\<close>

theorem ai_insight_never_raises:
  assumes "\<forall>msg. create (insight_request prompt) \<noteq> Inl (RaisesNonException msg)"
  shows "(\<exists>r. get_ai_insight create prompt = Inr r)
         \<and> (\<forall>msg. create (insight_request prompt) = Inl (RaisesException msg) \<longrightarrow>
               get_ai_insight create prompt = Inr (Some (''AI API Error: '' @ msg)))
         \<and> (create (insight_request prompt) = Inr [] \<longrightarrow>
               (\<exists>cause. get_ai_insight create prompt = Inr (Some (''AI API Error: '' @ cause))))
         \<and> (\<forall>content rest. create (insight_request prompt) = Inr (content # rest) \<longrightarrow>
               get_ai_insight create prompt = Inr content)"
  using assms
  by (auto simp: get_ai_insight_def split: sum.splits call_failure.splits list.splits)

theorem ai_insight_never_raises_witness:
  "get_ai_insight (\<lambda>r. Inl (RaisesException ''Incorrect API key provided'')) ''Plan a meal''
     = Inr (Some ''AI API Error: Incorrect API key provided'')
   \<and> (\<exists>cause. get_ai_insight (\<lambda>r. Inr []) ''Plan a meal''
         = Inr (Some (''AI API Error: '' @ cause)))
   \<and> get_ai_insight (\<lambda>r. Inr [Some ''Oats and fruit'']) ''Plan a meal''
     = Inr (Some ''Oats and fruit'')"
proof -
  let ?auth = "\<lambda>r::chat_request.
      (Inl (RaisesException ''Incorrect API key provided'') :: call_failure + chat_response)"
  let ?none = "\<lambda>r::chat_request. (Inr [] :: call_failure + chat_response)"
  let ?text = "\<lambda>r::chat_request. (Inr [Some ''Oats and fruit''] :: call_failure + chat_response)"
  have 1: "\<forall>msg. ?auth (insight_request ''Plan a meal'') \<noteq> Inl (RaisesNonException msg)"
    by simp
  have 2: "\<forall>msg. ?none (insight_request ''Plan a meal'') \<noteq> Inl (RaisesNonException msg)"
    by simp
  have 3: "\<forall>msg. ?text (insight_request ''Plan a meal'') \<noteq> Inl (RaisesNonException msg)"
    by simp
  from ai_insight_never_raises [OF 1]
  have a: "get_ai_insight ?auth ''Plan a meal''
             = Inr (Some (''AI API Error: '' @ ''Incorrect API key provided''))"
    by blast
  from ai_insight_never_raises [OF 2]
  have b: "\<exists>cause. get_ai_insight ?none ''Plan a meal'' = Inr (Some (''AI API Error: '' @ cause))"
    by blast
  from ai_insight_never_raises [OF 3]
  have c: "get_ai_insight ?text ''Plan a meal'' = Inr (Some ''Oats and fruit'')"
    by blast
  from a b c show ?thesis by simp
qed

section \<open>The Food Insights tab: when the lookup is called\<close>

lemma show_food_no_http:
  "show_food env food_choices selected_food = (evs, err) \<Longrightarrow> HttpGet url \<notin> set evs"
proof -
  have "HttpGet url \<notin> set (fst (show_food env food_choices selected_food))"
    by (simp add: show_food_def Let_def split: sum.splits option.splits)
  then show "show_food env food_choices selected_food = (evs, err) \<Longrightarrow> HttpGet url \<notin> set evs"
    by simp
qed

lemma search_food_usda_urls:
  "snd (search_food_usda key get query) = [usda_url key query]"
  by (simp add: search_food_usda_def Let_def split: sum.splits)

lemma food_tab_http:
  assumes "HttpGet url \<in> set (fst (food_tab env))"
  shows "text_input env \<noteq> [] \<and> url = usda_url (usda_api_key env) (text_input env)"
proof (cases "text_input env = []")
  case True
  with assms show ?thesis by (simp add: food_tab_def)
next
  case False
  obtain res urls where
    s: "search_food_usda (usda_api_key env) (requests_get env) (text_input env) = (res, urls)"
    by (cases "search_food_usda (usda_api_key env) (requests_get env) (text_input env)")
  have urls: "urls = [usda_url (usda_api_key env) (text_input env)]"
    using search_food_usda_urls [of "usda_api_key env" "requests_get env" "text_input env"] s
    by simp
  have "url = usda_url (usda_api_key env) (text_input env)"
    using assms False s
    by (auto simp: food_tab_def Let_def urls dest: show_food_no_http
          split: sum.splits if_splits option.splits prod.splits)
  with False show ?thesis by simp
qed

text \<open>
  Claim C9. When the food query is the empty string, a run of the Food Insights tab
  sends no request to the food database and shows nothing, and it ends without an
  exception; every request to the food database that a run sends is the lookup of the
  text the user typed, which is then not empty.
\<close>

theorem empty_query_makes_no_call:
  "(text_input env = [] \<longrightarrow> food_tab env = ([], None))
   \<and> (\<forall>url. HttpGet url \<in> set (fst (food_tab env)) \<longrightarrow>
         text_input env \<noteq> [] \<and> url = usda_url (usda_api_key env) (text_input env))"
  using food_tab_http [of _ env] by (simp add: food_tab_def)

theorem empty_query_makes_no_call_witness:
  "text_input (unreachable_environment []) = []
   \<and> food_tab (unreachable_environment []) = ([], None)
   \<and> HttpGet (usda_url None ''banana'') \<in> set (fst (food_tab (unreachable_environment ''banana'')))
   \<and> text_input (unreachable_environment ''banana'') \<noteq> []"
proof -
  have e: "text_input (unreachable_environment []) = []"
    by (simp add: unreachable_environment_def)
  have h: "HttpGet (usda_url None ''banana'')
             \<in> set (fst (food_tab (unreachable_environment ''banana'')))"
    by (simp add: food_tab_def unreachable_environment_def search_food_usda_def Let_def)
  from empty_query_makes_no_call [of "unreachable_environment []"] e
  have a: "food_tab (unreachable_environment []) = ([], None)"
    by blast
  from empty_query_makes_no_call [of "unreachable_environment ''banana''"] h
  have b: "text_input (unreachable_environment ''banana'') \<noteq> []"
    by blast
  from e a h b show ?thesis by simp
qed

section \<open>Nutrient extraction\<close>

lemma py_key_eq_JStr: "py_key_eq k (JStr s) = (k = JStr s)"
  by (cases k) auto

lemma py_dict_set_keys:
  "map fst (py_dict_set d (JStr s) v)
     = (if JStr s \<in> set (map fst d) then map fst d else map fst d @ [JStr s])"
proof (induction d)
  case Nil
  then show ?case by simp
next
  case (Cons kv d)
  obtain k' v' where kv: "kv = (k', v')" by (cases kv)
  show ?case
  proof (cases "k' = JStr s")
    case True
    then show ?thesis by (simp add: kv py_key_eq_JStr)
  next
    case False
    then show ?thesis using Cons.IH by (auto simp: kv py_key_eq_JStr)
  qed
qed

lemma py_dict_get_set:
  "py_dict_get (py_dict_set d (JStr s) v) (JStr t)
     = (if s = t then Inr v else py_dict_get d (JStr t))"
  by (induction d) (auto simp: py_key_eq_JStr)

lemma py_dict_set_length: "length (py_dict_set d k v) \<le> Suc (length d)"
  by (induction d) auto

lemma dict_comprehension_length:
  "dict_comprehension key val ns acc = Inr d \<Longrightarrow> length d \<le> length acc + length ns"
proof (induction ns arbitrary: acc)
  case Nil
  then show ?case by simp
next
  case (Cons n ns)
  from Cons.prems obtain k v where
    d: "dict_comprehension key val ns (py_dict_set acc k v) = Inr d"
    by (auto split: sum.splits if_splits)
  from Cons.IH [OF d] py_dict_set_length [of acc k v] show ?case by simp
qed

lemma well_formed_entry_getitem:
  assumes "well_formed_entry n"
  shows "py_getitem n ''nutrientName'' = Inr (JStr (entry_name n))"
    and "py_getitem n ''value'' = Inr (entry_value n)"
  using assms by (cases n; auto split: option.splits json.splits)+

lemma dict_comprehension_well_formed:
  assumes "list_all well_formed_entry ns"
  shows "dict_comprehension (\<lambda>n. py_getitem n ''nutrientName'') (\<lambda>n. py_getitem n ''value'') ns acc
           = Inr (foldl insert_entry acc ns)"
  using assms
  by (induction ns arbitrary: acc) (simp_all add: well_formed_entry_getitem insert_entry_def)

lemma first_occurrences_snoc:
  "first_occurrences (xs @ [x])
     = (if x \<in> set xs then first_occurrences xs else first_occurrences xs @ [x])"
  by (simp add: first_occurrences_def)

lemma set_first_occurrences: "set (first_occurrences xs) = set xs"
  by (simp add: first_occurrences_def)

lemma built_keys:
  "map fst (foldl insert_entry [] ns) = map JStr (first_occurrences (map entry_name ns))"
proof (induction ns rule: rev_induct)
  case Nil
  then show ?case by (simp add: first_occurrences_def)
next
  case (snoc n ns)
  have "JStr (entry_name n) \<in> set (map fst (foldl insert_entry [] ns))
          \<longleftrightarrow> entry_name n \<in> set (map entry_name ns)"
    unfolding snoc.IH by (auto simp: set_first_occurrences)
  then show ?case
    using snoc.IH
    by (simp add: insert_entry_def py_dict_set_keys first_occurrences_snoc del: set_map)
qed

lemma built_lookup_last:
  assumes "i < length ns"
    and "\<forall>j. i < j \<and> j < length ns \<longrightarrow> entry_name (ns ! j) \<noteq> entry_name (ns ! i)"
  shows "py_dict_get (foldl insert_entry [] ns) (JStr (entry_name (ns ! i)))
           = Inr (entry_value (ns ! i))"
  using assms
proof (induction ns rule: rev_induct)
  case Nil
  then show ?case by simp
next
  case (snoc n ns)
  show ?case
  proof (cases "i = length ns")
    case True
    then show ?thesis by (simp add: insert_entry_def py_dict_get_set)
  next
    case False
    with snoc.prems(1) have i: "i < length ns" by simp
    have ne: "entry_name n \<noteq> entry_name (ns ! i)"
      using snoc.prems(2) [rule_format, of "length ns"] i by (simp add: nth_append)
    have "\<forall>j. i < j \<and> j < length ns \<longrightarrow> entry_name (ns ! j) \<noteq> entry_name (ns ! i)"
    proof (intro allI impI)
      fix j assume j: "i < j \<and> j < length ns"
      then show "entry_name (ns ! j) \<noteq> entry_name (ns ! i)"
        using snoc.prems(2) [rule_format, of j] i by (simp add: nth_append)
    qed
    from snoc.IH [OF i this] ne i show ?thesis
      by (simp add: insert_entry_def py_dict_get_set nth_append)
  qed
qed

lemma built_length:
  "length (foldl insert_entry [] ns) = length (remdups (map entry_name ns))"
proof -
  have "length (foldl insert_entry [] ns) = length (map fst (foldl insert_entry [] ns))"
    by simp
  also have "\<dots> = length (first_occurrences (map entry_name ns))"
    unfolding built_keys by simp
  also have "\<dots> = length (remdups (rev (map entry_name ns)))"
    by (simp add: first_occurrences_def)
  also have "\<dots> = card (set (rev (map entry_name ns)))"
    by (rule length_remdups_card_conv)
  also have "\<dots> = length (remdups (map entry_name ns))"
    by (simp add: length_remdups_card_conv)
  finally show ?thesis .
qed

lemma extract_nutrients_well_formed:
  assumes "py_getitem food_data ''foodNutrients'' = Inr (JArr entries)"
    and "list_all well_formed_entry (take 5 entries)"
  shows "extract_nutrients food_data = Inr (foldl insert_entry [] (take 5 entries))"
  using assms by (simp add: extract_nutrients_def dict_comprehension_well_formed)

lemma extract_nutrients_length:
  assumes "extract_nutrients food_data = Inr d"
  shows "length d \<le> 5"
proof -
  from assms obtain ns first5 items where
    s: "py_slice5 ns = Inr first5" and i: "py_iter first5 = Inr items"
    and d: "dict_comprehension (\<lambda>n. py_getitem n ''nutrientName'')
              (\<lambda>n. py_getitem n ''value'') items [] = Inr d"
    by (auto simp: extract_nutrients_def split: sum.splits)
  have "length items \<le> 5"
    using s i by (cases ns) auto
  with dict_comprehension_length [OF d] show ?thesis by simp
qed

lemma remdups_shorter: "\<not> distinct xs \<Longrightarrow> length (remdups xs) < length xs"
  using length_remdups_leq [of xs] length_remdups_eq [of xs] by (simp add: le_neq_implies_less)

text \<open>
  Claim C5. For every selected food record, an extraction that returns has at most five
  entries, however many nutrients the record lists. On a record whose first five
  nutrient entries are well formed it returns the dict built by storing those entries
  one after the other, in the order of the record, each under its name; the keys of the
  dict are the names in the order of their first occurrence.
\<close>

theorem extraction_first_five:
  "(\<forall>d. extract_nutrients food_data = Inr d \<longrightarrow> length d \<le> 5)
   \<and> (py_getitem food_data ''foodNutrients'' = Inr (JArr entries)
        \<and> list_all well_formed_entry (take 5 entries) \<longrightarrow>
       extract_nutrients food_data = Inr (foldl insert_entry [] (take 5 entries))
       \<and> map fst (foldl insert_entry [] (take 5 entries))
           = map JStr (first_occurrences (map entry_name (take 5 entries))))"
  using extract_nutrients_length [of food_data]
    extract_nutrients_well_formed [of food_data entries]
    built_keys [of "take 5 entries"]
  by blast

theorem extraction_first_five_witness:
  "py_getitem oats ''foodNutrients'' = Inr (JArr oats_nutrients)
   \<and> list_all well_formed_entry (take 5 oats_nutrients)
   \<and> extract_nutrients oats
       = Inr [(JStr ''Protein'', JNum (169 / 10)),
              (JStr ''Total lipid (fat)'', JNum (69 / 10)),
              (JStr ''Carbohydrate, by difference'', JNum (663 / 10)),
              (JStr ''Energy'', JNum 389),
              (JStr ''Fiber, total dietary'', JNum (106 / 10))]"
proof -
  have g: "py_getitem oats ''foodNutrients'' = Inr (JArr oats_nutrients)"
    by (simp add: oats_def)
  have w: "list_all well_formed_entry (take 5 oats_nutrients)"
    by (simp add: oats_nutrients_def nutrient_def)
  from extraction_first_five [of oats oats_nutrients] g w
  have "extract_nutrients oats = Inr (foldl insert_entry [] (take 5 oats_nutrients))"
    by blast
  also have "foldl insert_entry [] (take 5 oats_nutrients)
       = [(JStr ''Protein'', JNum (169 / 10)),
          (JStr ''Total lipid (fat)'', JNum (69 / 10)),
          (JStr ''Carbohydrate, by difference'', JNum (663 / 10)),
          (JStr ''Energy'', JNum 389),
          (JStr ''Fiber, total dietary'', JNum (106 / 10))]"
    by (simp add: oats_nutrients_def nutrient_def insert_entry_def)
  finally show ?thesis using g w by simp
qed

text \<open>
  Claim C10. If two of the first five nutrient entries of the selected food record have
  the same name, the extracted dict has fewer than five entries, and under each name it
  holds the value of the last of the first five entries with that name: an entry that no
  later one among the five shares its name with is the one whose value the dict holds.
\<close>

theorem duplicate_names_overwrite:
  assumes "py_getitem food_data ''foodNutrients'' = Inr (JArr entries)"
    and "list_all well_formed_entry (take 5 entries)"
    and "\<not> distinct (map entry_name (take 5 entries))"
  shows "\<exists>d. extract_nutrients food_data = Inr d \<and> length d < 5
           \<and> (\<forall>i < length (take 5 entries).
                 (\<forall>j. i < j \<and> j < length (take 5 entries) \<longrightarrow>
                    entry_name (take 5 entries ! j) \<noteq> entry_name (take 5 entries ! i)) \<longrightarrow>
                 py_dict_get d (JStr (entry_name (take 5 entries ! i)))
                   = Inr (entry_value (take 5 entries ! i)))"
proof -
  let ?d = "foldl insert_entry [] (take 5 entries)"
  have 1: "extract_nutrients food_data = Inr ?d"
    using assms(1,2) by (rule extract_nutrients_well_formed)
  have "length ?d = length (remdups (map entry_name (take 5 entries)))"
    by (rule built_length)
  also have "\<dots> < length (map entry_name (take 5 entries))"
    using assms(3) by (rule remdups_shorter)
  also have "\<dots> \<le> 5" by simp
  finally have 2: "length ?d < 5" .
  have 3: "\<forall>i < length (take 5 entries).
             (\<forall>j. i < j \<and> j < length (take 5 entries) \<longrightarrow>
                entry_name (take 5 entries ! j) \<noteq> entry_name (take 5 entries ! i)) \<longrightarrow>
             py_dict_get ?d (JStr (entry_name (take 5 entries ! i)))
               = Inr (entry_value (take 5 entries ! i))"
    using built_lookup_last [of _ "take 5 entries"] by blast
  from 1 2 3 show ?thesis by blast
qed

theorem duplicate_names_overwrite_witness:
  "py_getitem banana ''foodNutrients'' = Inr (JArr banana_nutrients)
   \<and> list_all well_formed_entry (take 5 banana_nutrients)
   \<and> \<not> distinct (map entry_name (take 5 banana_nutrients))
   \<and> (\<exists>d. extract_nutrients banana = Inr d \<and> length d < 5
          \<and> py_dict_get d (JStr ''Energy'') = Inr (JNum 371))"
proof -
  have g: "py_getitem banana ''foodNutrients'' = Inr (JArr banana_nutrients)"
    by (simp add: banana_def)
  have w: "list_all well_formed_entry (take 5 banana_nutrients)"
    by (simp add: banana_nutrients_def nutrient_def)
  have n: "\<not> distinct (map entry_name (take 5 banana_nutrients))"
    by (simp add: banana_nutrients_def nutrient_def)
  from duplicate_names_overwrite [OF g w n] obtain d where
    d: "extract_nutrients banana = Inr d" "length d < 5"
    and l: "\<forall>i < length (take 5 banana_nutrients).
             (\<forall>j. i < j \<and> j < length (take 5 banana_nutrients) \<longrightarrow>
                entry_name (take 5 banana_nutrients ! j) \<noteq> entry_name (take 5 banana_nutrients ! i)) \<longrightarrow>
             py_dict_get d (JStr (entry_name (take 5 banana_nutrients ! i)))
               = Inr (entry_value (take 5 banana_nutrients ! i))"
    by blast
  have t: "take 5 banana_nutrients
             = [nutrient ''Protein'' (109 / 100) ''G'', nutrient ''Energy'' 89 ''KCAL'',
                nutrient ''Total lipid (fat)'' (33 / 100) ''G'', nutrient ''Energy'' 371 ''kJ'',
                nutrient ''Carbohydrate, by difference'' (228 / 10) ''G'']"
    by (simp add: banana_nutrients_def)
  have last: "\<forall>j. 3 < j \<and> j < length (take 5 banana_nutrients) \<longrightarrow>
                entry_name (take 5 banana_nutrients ! j) \<noteq> entry_name (take 5 banana_nutrients ! 3)"
  proof (intro allI impI)
    fix j assume "3 < j \<and> j < length (take 5 banana_nutrients)"
    then have "j = 4" by (simp add: t)
    then show "entry_name (take 5 banana_nutrients ! j) \<noteq> entry_name (take 5 banana_nutrients ! 3)"
      by (simp add: t nutrient_def)
  qed
  have "3 < length (take 5 banana_nutrients)" by (simp add: t)
  with l last have "py_dict_get d (JStr (entry_name (take 5 banana_nutrients ! 3)))
               = Inr (entry_value (take 5 banana_nutrients ! 3))"
    by blast
  then have "py_dict_get d (JStr ''Energy'') = Inr (JNum 371)"
    by (simp add: t nutrient_def)
  with d g w n show ?thesis by blast
qed

section \<open>Rounding to a float: the exponent and the error\<close>

lemma ilog2_bounds:
  assumes "0 < q"
  shows "power_int 2 (ilog2 q) \<le> q" and "q < power_int 2 (ilog2 q + 1)"
proof -
  obtain p d where pd: "quotient_of q = (p, d)"
    by (cases "quotient_of q")
  have d: "0 < d" using pd by (rule quotient_of_denom_pos)
  have q: "q = of_int p / of_int d"
    using pd quotient_of_div by blast
  have p: "0 < p"
    using assms d unfolding q by (simp add: zero_less_divide_iff)
  define k where "k = bitlen p - bitlen d"
  have pl: "power_int 2 (bitlen p - 1) \<le> (of_int p :: rat)"
    and ph: "(of_int p :: rat) < power_int 2 (bitlen p)"
    using bitlen_powi_bounds [OF p] by simp_all
  have dl: "power_int 2 (bitlen d - 1) \<le> (of_int d :: rat)"
    and dh: "(of_int d :: rat) < power_int 2 (bitlen d)"
    using bitlen_powi_bounds [OF d] by simp_all
  have dpos: "(0::rat) < of_int d" using d by simp
  have lo: "power_int 2 (k - 1) < q"
  proof -
    have "power_int 2 (k - 1) * (of_int d :: rat) < power_int 2 (k - 1) * power_int 2 (bitlen d)"
      using dh by (simp add: zero_less_power_int)
    also have "\<dots> = power_int 2 (bitlen p - 1)"
      by (simp add: k_def power_int_add [symmetric])
    also have "\<dots> \<le> of_int p" by (rule pl)
    finally show ?thesis unfolding q using dpos by (simp add: pos_less_divide_eq)
  qed
  have hi: "q < power_int 2 (k + 1)"
  proof -
    have "(of_int p :: rat) < power_int 2 (bitlen p)" by (rule ph)
    also have "\<dots> = power_int 2 (k + 1) * power_int 2 (bitlen d - 1)"
      by (simp add: k_def power_int_add [symmetric])
    also have "\<dots> \<le> power_int 2 (k + 1) * of_int d"
      using dl by (simp add: zero_less_power_int)
    finally show ?thesis unfolding q using dpos by (simp add: pos_divide_less_eq)
  qed
  have il: "ilog2 q = (if q < power_int 2 k then k - 1 else k)"
    by (simp add: ilog2_def pd k_def Let_def)
  show "power_int 2 (ilog2 q) \<le> q"
    using lo by (simp add: il)
  show "q < power_int 2 (ilog2 q + 1)"
    using hi by (simp add: il)
qed

lemma powi2_less_cancel:
  assumes "power_int (2::rat) a < power_int 2 b"
  shows "a < b"
proof (rule ccontr)
  assume "\<not> a < b"
  then have "b \<le> a" by simp
  then have "power_int (2::rat) b \<le> power_int 2 a"
    by (rule power_int_increasing) simp
  with assms show False by simp
qed

lemma ilog2_unique:
  assumes "power_int 2 k \<le> q" and "q < power_int 2 (k + 1)"
  shows "ilog2 q = k"
proof -
  have q: "0 < q"
    using assms(1) zero_less_power_int [of "2::rat" k] by linarith
  note b = ilog2_bounds [OF q]
  have "power_int (2::rat) (ilog2 q) < power_int 2 (k + 1)"
    using b(1) assms(2) by linarith
  then have 1: "ilog2 q < k + 1"
    by (rule powi2_less_cancel)
  have "power_int (2::rat) k < power_int 2 (ilog2 q + 1)"
    using b(2) assms(1) by linarith
  then have 2: "k < ilog2 q + 1"
    by (rule powi2_less_cancel)
  from 1 2 show ?thesis by linarith
qed

lemma round_half_even_of_int: "round_half_even (of_int n) = n"
  by (simp add: round_half_even_def)

lemma round_half_even_error: "\<bar>of_int (round_half_even y) - y\<bar> \<le> 1 / 2"
proof -
  have "of_int \<lfloor>y\<rfloor> \<le> y" "y < of_int \<lfloor>y\<rfloor> + 1"
    by linarith+
  then show ?thesis
    by (auto simp: round_half_even_def Let_def)
qed

lemma round_half_even_le:
  assumes "y \<le> of_int n"
  shows "round_half_even y \<le> n"
proof -
  have f: "\<lfloor>y\<rfloor> \<le> n" using assms by (simp add: floor_le_iff) 
  show ?thesis
  proof (cases "\<lfloor>y\<rfloor> = n")
    case True
    then have "y = of_int n" using assms
      by (metis floor_less_iff linorder_not_le order_antisym_conv order_refl)
    then show ?thesis by (simp add: round_half_even_of_int)
  next
    case False
    with f have "\<lfloor>y\<rfloor> + 1 \<le> n" by simp
    then show ?thesis by (auto simp: round_half_even_def Let_def)
  qed
qed

lemma round_half_even_ge:
  assumes "of_int n \<le> y"
  shows "n \<le> round_half_even y"
proof -
  have "n \<le> \<lfloor>y\<rfloor>" using assms by (simp add: le_floor_iff)
  then show ?thesis by (auto simp: round_half_even_def Let_def)
qed

lemma fl_normal:
  assumes lo: "power_int 2 k \<le> \<bar>q\<bar>" and hi: "\<bar>q\<bar> < power_int 2 (k + 1)"
    and k: "- 1022 \<le> k" "k \<le> 1022"
  shows "fl q = Finite (of_int (round_half_even (q / power_int 2 (k - 52))) * power_int 2 (k - 52))"
proof -
  define u :: rat where "u = power_int 2 (k - 52)"
  have u: "0 < u" by (simp add: u_def zero_less_power_int)
  have q0: "q \<noteq> 0"
  proof
    assume "q = 0"
    with lo have "power_int (2::rat) k \<le> 0" by simp
    moreover have "(0::rat) < power_int 2 k" by (simp add: zero_less_power_int)
    ultimately show False by linarith
  qed
  have e: "max (ilog2 \<bar>q\<bar>) (- 1022) = k"
    using ilog2_unique [OF lo hi] k by simp
  have u53: "u * 2 ^ 53 = power_int 2 (k + 1)"
  proof -
    have "power_int (2::rat) ((k - 52) + 53) = power_int 2 (k - 52) * power_int 2 53"
      by (rule power_int_add) simp
    moreover have "(k - 52) + 53 = k + 1" by simp
    ultimately show ?thesis by (simp add: u_def)
  qed
  have "\<bar>q / u\<bar> < 2 ^ 53"
    using hi u u53 by (simp add: abs_divide pos_divide_less_eq mult.commute)
  then have "q / u < 2 ^ 53" and "- (2 ^ 53) < q / u"
    by (simp_all only: abs_less_iff minus_less_iff)
  then have b1: "q / u \<le> of_int (2 ^ 53)" and b2: "of_int (- (2 ^ 53)) \<le> q / u"
    by simp_all
  have "round_half_even (q / u) \<le> 2 ^ 53" "- (2 ^ 53) \<le> round_half_even (q / u)"
    using round_half_even_le [OF b1] round_half_even_ge [OF b2] by simp_all
  then have "\<bar>round_half_even (q / u)\<bar> \<le> 2 ^ 53" by simp
  then have "\<bar>(of_int (round_half_even (q / u)) :: rat)\<bar> \<le> of_int (2 ^ 53)"
    by (simp only: of_int_abs [symmetric] of_int_le_iff)
  then have "\<bar>(of_int (round_half_even (q / u)) :: rat) * u\<bar> \<le> 2 ^ 53 * u"
    using u by (simp add: abs_mult)
  also have "\<dots> = power_int 2 (k + 1)" using u53 by (simp add: mult.commute)
  also have "\<dots> \<le> power_int 2 1023"
    using k by (intro power_int_increasing) simp_all
  also have "\<dots> < power_int 2 1024"
    by (intro power_int_strict_increasing) simp_all
  finally have "\<not> power_int 2 1024 \<le> \<bar>(of_int (round_half_even (q / u)) :: rat) * u\<bar>"
    by simp
  then show ?thesis
    using q0 e by (simp add: fl_def Let_def u_def del: power_int_numeral)
qed

lemma fl_rel_error:
  assumes lo: "power_int 2 (- 1022) \<le> \<bar>q\<bar>" and hi: "\<bar>q\<bar> < power_int 2 1023"
  shows "\<exists>r. fl q = Finite r \<and> \<bar>r - q\<bar> \<le> \<bar>q\<bar> / 2 ^ 53"
proof -
  have q: "0 < \<bar>q\<bar>"
    using lo zero_less_power_int [of "2::rat" "- 1022"] by linarith
  define k where "k = ilog2 \<bar>q\<bar>"
  note b = ilog2_bounds [OF q, folded k_def]
  have "power_int (2::rat) k < power_int 2 1023" using b(1) hi by linarith
  then have k1: "k \<le> 1022" using powi2_less_cancel by fastforce
  have "power_int (2::rat) (- 1022) < power_int 2 (k + 1)" using b(2) lo by linarith
  then have k2: "- 1022 \<le> k" using powi2_less_cancel by fastforce
  define u :: rat where "u = power_int 2 (k - 52)"
  have u: "0 < u" by (simp add: u_def zero_less_power_int)
  define r where "r = of_int (round_half_even (q / u)) * u"
  have fl: "fl q = Finite r"
    unfolding r_def u_def by (rule fl_normal [OF b k2 k1])
  have "r - q = (of_int (round_half_even (q / u)) - q / u) * u"
    using u by (simp add: r_def left_diff_distrib)
  then have "\<bar>r - q\<bar> = \<bar>of_int (round_half_even (q / u)) - q / u\<bar> * u"
    using u by (simp only: abs_mult abs_of_pos)
  also have "\<dots> \<le> 1 / 2 * u"
    using round_half_even_error [of "q / u"] u by (intro mult_right_mono) simp_all
  also have "\<dots> = power_int 2 k / 2 ^ 53"
  proof -
    have "power_int (2::rat) (k + (- 52)) = power_int 2 k * power_int 2 (- 52)"
      by (rule power_int_add) simp
    then have "u = power_int 2 k * power_int 2 (- 52)"
      by (simp add: u_def)
    then show ?thesis by (simp add: power_int_minus_divide)
  qed
  also have "\<dots> \<le> \<bar>q\<bar> / 2 ^ 53"
    using b(1) by (simp add: divide_right_mono)
  finally show ?thesis using fl by blast
qed

lemma floor_numeral_div:
  "\<lfloor>numeral a / numeral b :: rat\<rfloor> = numeral a div numeral b"
  using floor_divide_of_int_eq [of "numeral a" "numeral b", where ?'a = rat] by simp

lemmas fl_eval = round_half_even_def Let_def floor_numeral_div

section \<open>The calorie estimator on the energy table\<close>

text \<open>
  One rounding keeps a positive value between its products with \<open>1 - 1 / 2 ^ 53\<close> and
  with \<open>1 + 1 / 2 ^ 53\<close>; \<open>n\<close> roundings in a row keep it between the products with the
  \<open>n\<close>-th powers.
\<close>

lemma powi_small: "power_int (2::rat) (- 1022) \<le> 1 / 2"
proof -
  have "power_int (2::rat) (- 1022) \<le> power_int 2 (- 1)"
    by (rule power_int_increasing) simp_all
  then show ?thesis by simp
qed

lemma powi_large: "(2::rat) ^ 20 < power_int 2 1023"
proof -
  have "power_int (2::rat) 20 < power_int 2 1023"
    by (rule power_int_strict_increasing) simp_all
  then show ?thesis by simp
qed

lemma fl_close:
  assumes E: "1 \<le> E" "E \<le> 2 ^ 19" and n: "n \<le> 4"
    and lo: "E * (1 - 1 / 2 ^ 53) ^ n \<le> q" and hi: "q \<le> E * (1 + 1 / 2 ^ 53) ^ n"
  shows "\<exists>r. fl q = Finite r \<and> E * (1 - 1 / 2 ^ 53) ^ Suc n \<le> r
           \<and> r \<le> E * (1 + 1 / 2 ^ 53) ^ Suc n"
proof -
  define lo_f :: rat where "lo_f = 1 - 1 / 2 ^ 53"
  define hi_f :: rat where "hi_f = 1 + 1 / 2 ^ 53"
  have lf: "0 \<le> lo_f" "lo_f \<le> 1" and hf: "1 \<le> hi_f"
    by (simp_all add: lo_f_def hi_f_def)
  have "lo_f ^ 4 \<le> lo_f ^ n"
    using n lf by (intro power_decreasing) simp_all
  moreover have "1 / 2 \<le> lo_f ^ 4"
    by (simp add: lo_f_def power_divide)
  ultimately have p1: "1 / 2 \<le> lo_f ^ n" by linarith
  have "hi_f ^ n \<le> hi_f ^ 4"
    using n hf by (intro power_increasing) simp_all
  moreover have "hi_f ^ 4 \<le> 2"
    by (simp add: hi_f_def power_divide)
  ultimately have p2: "hi_f ^ n \<le> 2" by linarith
  have "1 * (1 / 2) \<le> E * lo_f ^ n"
    using E(1) p1 by (intro mult_mono) simp_all
  with lo have q1: "1 / 2 \<le> q" by (simp add: lo_f_def)
  have hp: "0 \<le> hi_f ^ n" using hf by simp
  have "E * hi_f ^ n \<le> 2 ^ 19 * 2"
    using E p2 hp by (intro mult_mono) simp_all
  with hi have q2: "q \<le> 2 ^ 20" by (simp add: hi_f_def)
  have qpos: "0 < q" using q1 by linarith
  have a1: "power_int 2 (- 1022) \<le> \<bar>q\<bar>"
    using powi_small q1 qpos by linarith
  have a2: "\<bar>q\<bar> < power_int 2 1023"
    using powi_large q2 qpos by linarith
  from fl_rel_error [OF a1 a2] obtain r where
    r: "fl q = Finite r" and e: "\<bar>r - q\<bar> \<le> \<bar>q\<bar> / 2 ^ 53"
    by blast
  have e': "\<bar>r - q\<bar> \<le> q / 2 ^ 53" using e qpos by simp
  have d1: "q - r \<le> q / 2 ^ 53" and d2: "r - q \<le> q / 2 ^ 53"
    using e' by (simp_all only: abs_le_iff minus_diff_eq)
  have ql: "q * lo_f = q - q / 2 ^ 53" and qh: "q * hi_f = q + q / 2 ^ 53"
    by (simp_all add: lo_f_def hi_f_def right_diff_distrib distrib_left)
  have "q * lo_f \<le> r"
    using d1 ql by linarith
  moreover have "E * lo_f ^ n * lo_f \<le> q * lo_f"
    using lo lf by (intro mult_right_mono) (simp_all add: lo_f_def)
  ultimately have r1: "E * lo_f ^ Suc n \<le> r" by (simp add: mult_ac)
  have "r \<le> q * hi_f"
    using d2 qh by linarith
  moreover have "q * hi_f \<le> E * hi_f ^ n * hi_f"
    using hi hf by (intro mult_right_mono) (simp_all add: hi_f_def)
  ultimately have r2: "r \<le> E * hi_f ^ Suc n" by (simp add: mult_ac)
  from r r1 r2 show ?thesis by (auto simp: lo_f_def hi_f_def)
qed

lemma fl_int_exact:
  assumes "0 < i" and "i < 2 ^ 53"
  shows "fl (of_int i) = Finite (of_int i)"
proof -
  let ?q = "of_int i :: rat"
  have q: "0 < ?q" using assms(1) by simp
  define k where "k = ilog2 ?q"
  note b = ilog2_bounds [OF q, folded k_def]
  have "?q < 2 ^ 53"
    using assms(2) by (metis of_int_less_iff of_int_numeral of_int_power)
  then have "power_int (2::rat) k < power_int 2 53" using b(1) by simp
  then have k1: "k < 53" by (rule powi2_less_cancel)
  have "1 \<le> ?q" using assms(1) by simp
  then have "power_int (2::rat) 0 < power_int 2 (k + 1)" using b(2) by simp
  then have k0: "0 \<le> k" using powi2_less_cancel by fastforce
  have u: "power_int (2::rat) (k - 52) = 1 / 2 ^ nat (52 - k)"
    using k1 by (simp add: power_int_def inverse_eq_divide power_inverse [symmetric] nat_diff_distrib
          flip: power_one_over)
  have "?q / power_int 2 (k - 52) = of_int (i * 2 ^ nat (52 - k))"
    by (simp add: u)
  then have "round_half_even (?q / power_int 2 (k - 52)) = i * 2 ^ nat (52 - k)"
    by (simp only: round_half_even_of_int)
  moreover have "\<bar>?q\<bar> = ?q" using q by simp
  ultimately show ?thesis
    using fl_normal [of k ?q] b k0 k1 by (simp add: u)
qed

lemma met_literal_range:
  "(exercise, M) \<in> set MET_LITERALS \<Longrightarrow> 5 / 2 \<le> M \<and> M \<le> 49 / 5"
  by (auto simp: MET_LITERALS_def)

lemma met_keys_distinct: "distinct (map fst EXERCISE_MET)"
  by (simp add: EXERCISE_MET_def MET_LITERALS_def)

lemma met_lookup:
  assumes "(exercise, M) \<in> set MET_LITERALS"
  shows "map_of (exercise_met initial_state) exercise = Some (fl M)"
proof -
  have "(fst (exercise, M), fl (snd (exercise, M))) \<in> (\<lambda>kv. (fst kv, fl (snd kv))) ` set MET_LITERALS"
    using assms by (rule imageI)
  then have "(exercise, fl M) \<in> set EXERCISE_MET"
    by (simp add: EXERCISE_MET_def)
  with met_keys_distinct have "map_of EXERCISE_MET exercise = Some (fl M)"
    by (rule map_of_is_SomeI)
  then show ?thesis by (simp add: initial_state_def)
qed

lemma fl_three_and_a_half: "fl (35 / 10) = Finite (7 / 2)"
  by (simp add: fl_normal [where k = 1] fl_eval)

lemma fl_200: "fl (of_int 200) = Finite 200"
  using fl_int_exact [of 200] by simp

lemma as_double_between:
  assumes "num_between lo hi n" and "1 \<le> lo" and "hi \<le> 2 ^ 20"
  shows "as_double n = Inr (Finite (num_value n))"
proof (cases n)
  case (PyInt i)
  from assms have "1 \<le> (of_int i :: rat)" and "(of_int i :: rat) \<le> 2 ^ 20"
    by (simp_all add: PyInt)
  then have "1 \<le> i" and "i \<le> 2 ^ 20"
    by simp_all
  then have "0 < i" and "i < 2 ^ 53" by simp_all
  then show ?thesis by (simp add: PyInt fl_int_exact)
next
  case (PyFloat x)
  with assms show ?thesis by (cases x) simp_all
qed

lemma num_between_value:
  "num_between lo hi n \<longrightarrow> lo \<le> num_value n \<and> num_value n \<le> hi"
proof (cases n)
  case (PyInt i)
  then show ?thesis by simp
next
  case (PyFloat x)
  then show ?thesis by (cases x) simp_all
qed

lemma scale_bounds:
  fixes E :: rat
  assumes "0 \<le> c" and "E * l \<le> p" and "p \<le> E * h"
  shows "E * c * l \<le> p * c" and "p * c \<le> E * c * h"
proof -
  have "E * l * c \<le> p * c" using assms(1,2) by (rule mult_right_mono [rotated])
  then show "E * c * l \<le> p * c" by (simp add: mult_ac)
  have "p * c \<le> E * h * c" using assms(1,3) by (rule mult_right_mono [rotated])
  then show "p * c \<le> E * c * h" by (simp add: mult_ac)
qed

lemma five_roundings:
  "(1 + 1 / 2 ^ 53) ^ 5 \<le> (1 + 1 / 2 ^ 50 :: rat)"
  "(1 - 1 / 2 ^ 50 :: rat) \<le> (1 - 1 / 2 ^ 53) ^ 5"
  "(1 / 2 :: rat) \<le> (1 - 1 / 2 ^ 53) ^ 5"
  "(1 + 1 / 2 ^ 53) ^ 5 \<le> (2 :: rat)"
  by (simp_all add: power_divide)

lemma product_bounds:
  fixes a b :: rat
  assumes "la \<le> a" "a \<le> ha" "lb \<le> b" "b \<le> hb" "0 \<le> la" "0 \<le> lb"
  shows "la * lb \<le> a * b" and "a * b \<le> ha * hb"
proof -
  show "la * lb \<le> a * b"
    using assms by (intro mult_mono) linarith+
  show "a * b \<le> ha * hb"
    using assms by (intro mult_mono) linarith+
qed

lemma formula_chain:
  fixes M W D :: rat
  assumes M: "5 / 2 \<le> M" "M \<le> 49 / 5"
    and W: "30 \<le> W" "W \<le> 200"
    and D: "5 \<le> D" "D \<le> 300"
  shows "\<exists>mv a b c x r.
           fl M = Finite mv \<and> fl (mv * (7 / 2)) = Finite a \<and> fl (a * W) = Finite b
           \<and> fl (b / 200) = Finite c \<and> fl (c * D) = Finite x
           \<and> fl (of_int (round_half_even (x * 100)) / 100) = Finite r
           \<and> \<bar>r - of_int (round_half_even (x * 100)) / 100\<bar>
               \<le> of_int (round_half_even (x * 100)) / 100 / 2 ^ 53
           \<and> \<bar>x - M * (7 / 2) * W / 200 * D\<bar> \<le> M * (7 / 2) * W / 200 * D / 2 ^ 50"
proof -
  define lf :: rat where "lf = 1 - 1 / 2 ^ 53"
  define hf :: rat where "hf = 1 + 1 / 2 ^ 53"
  note step = fl_close [folded lf_def hf_def]
  define E2 where "E2 = M * (7 / 2)"
  define E3 where "E3 = E2 * W"
  define E4 where "E4 = E3 * (1 / 200)"
  define E5 where "E5 = E4 * D"
  have e2: "35 / 4 \<le> E2" "E2 \<le> 343 / 10"
    using M by (simp_all add: E2_def)
  have e3: "525 / 2 \<le> E3" "E3 \<le> 6860"
    unfolding E3_def using product_bounds [OF e2 W] by simp_all
  have e4: "21 / 16 \<le> E4" "E4 \<le> 343 / 10"
    using e3 by (simp_all add: E4_def)
  have e5: "105 / 16 \<le> E5" "E5 \<le> 10290"
    unfolding E5_def using product_bounds [OF e4 D] by simp_all
  \<comment> \<open>the literal\<close>
  from step [of M 0 M] M obtain mv where
    mv: "fl M = Finite mv" "M * lf ^ 1 \<le> mv" "mv \<le> M * hf ^ 1"
    by auto
  \<comment> \<open>times 3.5\<close>
  have "E2 * lf ^ 1 \<le> mv * (7 / 2)" "mv * (7 / 2) \<le> E2 * hf ^ 1"
    unfolding E2_def using scale_bounds [OF _ mv(2,3), of "7 / 2"] by simp_all
  from step [OF _ _ _ this] e2 obtain a where
    a: "fl (mv * (7 / 2)) = Finite a" "E2 * lf ^ 2 \<le> a" "a \<le> E2 * hf ^ 2"
    by (auto simp: numeral_2_eq_2)
  \<comment> \<open>times the weight\<close>
  have "E3 * lf ^ 2 \<le> a * W" "a * W \<le> E3 * hf ^ 2"
    unfolding E3_def using scale_bounds [OF _ a(2,3), of W] W by simp_all
  from step [OF _ _ _ this] e3 obtain b where
    b: "fl (a * W) = Finite b" "E3 * lf ^ 3 \<le> b" "b \<le> E3 * hf ^ 3"
    by (auto simp: numeral_3_eq_3 numeral_2_eq_2)
  \<comment> \<open>divided by 200\<close>
  have "E4 * lf ^ 3 \<le> b * (1 / 200)" "b * (1 / 200) \<le> E4 * hf ^ 3"
    unfolding E4_def using scale_bounds [OF _ b(2,3), of "1 / 200"] by simp_all
  from step [OF _ _ _ this] e4 obtain c where
    c: "fl (b * (1 / 200)) = Finite c" "E4 * lf ^ 4 \<le> c" "c \<le> E4 * hf ^ 4"
    by (auto simp: numeral_3_eq_3 eval_nat_numeral)
  \<comment> \<open>times the duration\<close>
  have "E5 * lf ^ 4 \<le> c * D" "c * D \<le> E5 * hf ^ 4"
    unfolding E5_def using scale_bounds [OF _ c(2,3), of D] D by simp_all
  from step [OF _ _ _ this] e5 obtain x where
    x: "fl (c * D) = Finite x" "E5 * lf ^ 5 \<le> x" "x \<le> E5 * hf ^ 5"
    by (auto simp: eval_nat_numeral)
  have E5pos: "0 \<le> E5" using e5 by simp
  have "E5 * (1 - 1 / 2 ^ 50) \<le> E5 * lf ^ 5"
    using E5pos five_roundings(2) unfolding lf_def by (rule mult_left_mono [rotated])
  define t where "t = E5 / 2 ^ 50"
  have x1: "E5 - t \<le> x"
    using x(2) \<open>E5 * (1 - 1 / 2 ^ 50) \<le> E5 * lf ^ 5\<close>
    by (simp add: right_diff_distrib t_def)
  have "E5 * hf ^ 5 \<le> E5 * (1 + 1 / 2 ^ 50)"
    using E5pos five_roundings(1) unfolding hf_def by (rule mult_left_mono [rotated])
  with x(3) have x2: "x \<le> E5 + t" by (simp add: distrib_left t_def)
  have "\<bar>x - E5\<bar> \<le> t"
    using x1 x2 by linarith
  then have err: "\<bar>x - E5\<bar> \<le> E5 / 2 ^ 50"
    by (simp only: t_def)
  \<comment> \<open>the rounding to two decimals\<close>
  have "E5 * (1 / 2) \<le> E5 * lf ^ 5"
    using E5pos five_roundings(3) unfolding lf_def by (rule mult_left_mono [rotated])
  moreover have "105 / 32 \<le> E5 * (1 / 2)" using e5(1) by simp
  ultimately have "3 \<le> x" using x(2) by linarith
  then have "of_int 300 \<le> x * 100" by simp
  then have k1: "300 \<le> round_half_even (x * 100)" by (rule round_half_even_ge)
  have "E5 * hf ^ 5 \<le> E5 * 2"
    using E5pos five_roundings(4) unfolding hf_def by (rule mult_left_mono [rotated])
  moreover have "E5 * 2 \<le> 20580" using e5(2) by simp
  ultimately have "x \<le> 20580" using x(3) by linarith
  then have "x * 100 \<le> of_int 2058000" by simp
  then have k2: "round_half_even (x * 100) \<le> 2058000" by (rule round_half_even_le)
  define y :: rat where "y = of_int (round_half_even (x * 100)) / 100"
  have "(of_int 300 :: rat) \<le> of_int (round_half_even (x * 100))"
    and "(of_int (round_half_even (x * 100)) :: rat) \<le> of_int 2058000"
    using k1 k2 by (simp_all only: of_int_le_iff)
  then have y: "1 \<le> y" "y \<le> 2 ^ 19" by (simp_all add: y_def)
  from step [of y 0 y] y obtain r where
    r: "fl y = Finite r" and rb: "y * lf ^ 1 \<le> r" "r \<le> y * hf ^ 1"
    by auto
  define s where "s = y / 2 ^ 53"
  have "y * lf ^ 1 = y - s" and "y * hf ^ 1 = y + s"
    by (simp_all add: lf_def hf_def s_def right_diff_distrib distrib_left)
  with rb have "\<bar>r - y\<bar> \<le> s" by linarith
  then have rerr: "\<bar>r - y\<bar> \<le> y / 2 ^ 53" by (simp only: s_def)
  have fin: "M * (7 / 2) * W / 200 * D = E5"
    by (simp add: E5_def E4_def E3_def E2_def)
  have c': "fl (b / 200) = Finite c" using c(1) by simp
  show ?thesis
    using mv(1) a(1) b(1) c' x(1) r rerr err unfolding y_def fin by blast
qed

lemma met_literal_tenths:
  "(exercise, M) \<in> set MET_LITERALS \<Longrightarrow> \<exists>t::int. M = of_int t / 10"
proof -
  have "(98 / 10 :: rat) = of_int 98 / 10" "(75 / 10 :: rat) = of_int 75 / 10"
    "(38 / 10 :: rat) = of_int 38 / 10" "(60 / 10 :: rat) = of_int 60 / 10"
    "(25 / 10 :: rat) = of_int 25 / 10"
    by simp_all
  then show "(exercise, M) \<in> set MET_LITERALS \<Longrightarrow> \<exists>t::int. M = of_int t / 10"
    unfolding MET_LITERALS_def by (auto simp del: of_int_numeral)
qed

lemma nearest_cent:
  fixes x E :: rat and N :: int
  assumes E: "0 \<le> E" "E \<le> 10290" and N: "E = of_int N / 20000"
    and x: "\<bar>x - E\<bar> \<le> E / 2 ^ 50"
  shows "\<bar>of_int (round_half_even (x * 100)) / 100 - E\<bar> \<le> 1 / 200"
proof -
  define k where "k = round_half_even (x * 100)"
  have "E / 2 ^ 50 \<le> 10290 / 2 ^ 50" using E(2) by (simp add: divide_right_mono)
  also have "\<dots> \<le> 1 / 80000" by simp
  finally have "\<bar>x - E\<bar> \<le> 1 / 80000" using x by linarith
  then have 1: "\<bar>x * 100 - E * 100\<bar> \<le> 1 / 800" by linarith
  have 2: "\<bar>of_int k - x * 100\<bar> \<le> 1 / 2"
    unfolding k_def by (rule round_half_even_error)
  from 1 2 have "\<bar>of_int k - E * 100\<bar> \<le> 1 / 2 + 1 / 800" by linarith
  then have "\<bar>of_int k * 200 - E * 20000\<bar> \<le> 100 + 1 / 4" by linarith
  then have "\<bar>(of_int (k * 200 - N) :: rat)\<bar> \<le> 100 + 1 / 4" by (simp add: N)
  then have "\<bar>(of_int (k * 200 - N) :: rat)\<bar> < of_int 101" by linarith
  then have "\<bar>k * 200 - N\<bar> < 101"
    by (simp only: of_int_abs [symmetric] of_int_less_iff)
  then have "\<bar>k * 200 - N\<bar> \<le> 100" by linarith
  then have "\<bar>(of_int (k * 200 - N) :: rat)\<bar> \<le> of_int 100"
    by (simp only: of_int_abs [symmetric] of_int_le_iff)
  then have "\<bar>of_int k * 200 - E * 20000\<bar> \<le> 100" by (simp add: N)
  then have "\<bar>of_int k / 100 - E\<bar> \<le> 1 / 200" by linarith
  then show ?thesis by (simp only: k_def)
qed

lemma estimate_chain:
  assumes "(exercise, M) \<in> set MET_LITERALS"
    and "num_between 30 200 weight_kg" and "num_between 5 300 duration_min"
  shows "\<exists>a b c x r.
           float_mul (fl M) (fl (35 / 10)) = Finite a
           \<and> float_mul_num (Finite a) weight_kg = Inr (Finite b)
           \<and> float_div_int (Finite b) 200 = Inr (Finite c)
           \<and> float_mul_num (Finite c) duration_min = Inr (Finite x)
           \<and> \<bar>x - M * (7 / 2) * num_value weight_kg / 200 * num_value duration_min\<bar>
               \<le> M * (7 / 2) * num_value weight_kg / 200 * num_value duration_min / 2 ^ 50
           \<and> calculate_calories_burned initial_state weight_kg exercise duration_min
               = (Inr (PyFloat (Finite r)), initial_state)
           \<and> fl (of_int (round_half_even (x * 100)) / 100) = Finite r
           \<and> \<bar>r - of_int (round_half_even (x * 100)) / 100\<bar>
               \<le> of_int (round_half_even (x * 100)) / 100 / 2 ^ 53"
proof -
  let ?W = "num_value weight_kg" and ?D = "num_value duration_min"
  have M: "5 / 2 \<le> M" "M \<le> 49 / 5"
    using met_literal_range [OF assms(1)] by simp_all
  have W: "30 \<le> ?W" "?W \<le> 200" and D: "5 \<le> ?D" "?D \<le> 300"
    using num_between_value [of 30 200 weight_kg] num_between_value [of 5 300 duration_min]
      assms(2,3) by simp_all
  have w: "as_double weight_kg = Inr (Finite ?W)"
    using assms(2) by (rule as_double_between) simp_all
  have d: "as_double duration_min = Inr (Finite ?D)"
    using assms(3) by (rule as_double_between) simp_all
  from formula_chain [OF M W D] obtain mv a b c x r where
    mv: "fl M = Finite mv" and a: "fl (mv * (7 / 2)) = Finite a"
    and b: "fl (a * ?W) = Finite b" and c: "fl (b / 200) = Finite c"
    and x: "fl (c * ?D) = Finite x"
    and r: "fl (of_int (round_half_even (x * 100)) / 100) = Finite r"
    and rerr: "\<bar>r - of_int (round_half_even (x * 100)) / 100\<bar>
                 \<le> of_int (round_half_even (x * 100)) / 100 / 2 ^ 53"
    and err: "\<bar>x - M * (7 / 2) * ?W / 200 * ?D\<bar> \<le> M * (7 / 2) * ?W / 200 * ?D / 2 ^ 50"
    by blast
  have 1: "float_mul (fl M) (fl (35 / 10)) = Finite a"
    using a by (simp only: mv fl_three_and_a_half float_mul.simps)
  have 2: "float_mul_num (Finite a) weight_kg = Inr (Finite b)"
    using b by (simp add: float_mul_num_def w)
  have 3: "float_div_int (Finite b) 200 = Inr (Finite c)"
    using c fl_200 by (simp add: float_div_int_def)
  have 4: "float_mul_num (Finite c) duration_min = Inr (Finite x)"
    using x by (simp add: float_mul_num_def d)
  have 5: "py_round2 (Finite x) = Finite r"
    using r by simp
  have 6: "calculate_calories_burned initial_state weight_kg exercise duration_min
             = (Inr (PyFloat (Finite r)), initial_state)"
    unfolding calculate_calories_burned_def
    by (simp only: met_lookup [OF assms(1)] option.case 1 2 3 4 5 sum.case)
  from 1 2 3 4 6 r rerr err show ?thesis by blast
qed

lemma formula_range:
  fixes M W D :: rat
  assumes M: "5 / 2 \<le> M" "M \<le> 49 / 5"
    and W: "30 \<le> W" "W \<le> 200"
    and D: "5 \<le> D" "D \<le> 300"
  shows "0 \<le> M * (7 / 2) * W / 200 * D" and "M * (7 / 2) * W / 200 * D \<le> 10290"
proof -
  have e2: "35 / 4 \<le> M * (7 / 2)" "M * (7 / 2) \<le> 343 / 10"
    using M by simp_all
  have e3: "0 \<le> M * (7 / 2) * W" "M * (7 / 2) * W \<le> 6860"
    using product_bounds [OF e2 W] by simp_all
  have e4: "0 \<le> M * (7 / 2) * W * (1 / 200)" "M * (7 / 2) * W * (1 / 200) \<le> 343 / 10"
    using e3 by simp_all
  have "0 * 5 \<le> M * (7 / 2) * W * (1 / 200) * D"
    and "M * (7 / 2) * W * (1 / 200) * D \<le> 343 / 10 * 300"
    using product_bounds [OF e4 D] by simp_all
  then show "0 \<le> M * (7 / 2) * W / 200 * D" and "M * (7 / 2) * W / 200 * D \<le> 10290"
    by simp_all
qed

text \<open>
  Claim C1, as amended. For every exercise of the energy table, every weight from 30 to
  200 and every duration from 5 to 300, the calorie estimator returns Python's
  \<^verbatim>\<open>round(met * 3.5 * weight_kg / 200 * duration_min, 2)\<close> on floats, and leaves the table as
  it was:
  \<^item> each product and the quotient, taken from the left, is a finite float, \<open>a\<close>, \<open>b\<close>,
    \<open>c\<close> and \<open>x\<close> in turn, and \<open>x\<close> is the MET formula on the decimal literal \<open>M\<close> of the
    table up to a relative error of \<open>1 / 2 ^ 50\<close>;
  \<^item> the result \<open>r\<close> is the float of the number \<open>k / 100\<close>, where \<open>k\<close> is \<open>100 * x\<close> rounded
    to an integer, ties to even: \<open>k / 100\<close> is a number of two decimals nearest to the float
    product \<open>x\<close>, and \<open>r\<close> is \<open>k / 100\<close> up to a relative error of \<open>1 / 2 ^ 53\<close>;
  \<^item> with an \<^verbatim>\<open>int\<close> weight and an \<^verbatim>\<open>int\<close> duration, as the Exercise Tracker passes them,
    \<open>k / 100\<close> is also a number of two decimals nearest to the exact value of the formula.
  Where the exact value lies halfway between two such numbers, the side is the one the
  float product falls on; it need not be the half-even or the half-up choice.
\<close>

theorem calories_known_exercise:
  assumes "(exercise, M) \<in> set MET_LITERALS"
    and "num_between 30 200 weight_kg" and "num_between 5 300 duration_min"
  shows "\<exists>a b c x r.
           float_mul (fl M) (fl (35 / 10)) = Finite a
           \<and> float_mul_num (Finite a) weight_kg = Inr (Finite b)
           \<and> float_div_int (Finite b) 200 = Inr (Finite c)
           \<and> float_mul_num (Finite c) duration_min = Inr (Finite x)
           \<and> \<bar>x - M * (7 / 2) * num_value weight_kg / 200 * num_value duration_min\<bar>
               \<le> M * (7 / 2) * num_value weight_kg / 200 * num_value duration_min / 2 ^ 50
           \<and> calculate_calories_burned initial_state weight_kg exercise duration_min
               = (Inr (PyFloat (Finite r)), initial_state)
           \<and> fl (of_int (round_half_even (x * 100)) / 100) = Finite r
           \<and> \<bar>of_int (round_half_even (x * 100)) / 100 - x\<bar> \<le> 1 / 200
           \<and> \<bar>r - of_int (round_half_even (x * 100)) / 100\<bar>
               \<le> of_int (round_half_even (x * 100)) / 100 / 2 ^ 53
           \<and> (\<forall>w d. weight_kg = PyInt w \<and> duration_min = PyInt d \<longrightarrow>
                 \<bar>of_int (round_half_even (x * 100)) / 100
                    - M * (7 / 2) * num_value weight_kg / 200 * num_value duration_min\<bar>
                   \<le> 1 / 200)"
proof -
  let ?W = "num_value weight_kg" and ?D = "num_value duration_min"
  let ?E = "M * (7 / 2) * ?W / 200 * ?D"
  from estimate_chain [OF assms] obtain a b c x r where
    1: "float_mul (fl M) (fl (35 / 10)) = Finite a"
    and 2: "float_mul_num (Finite a) weight_kg = Inr (Finite b)"
    and 3: "float_div_int (Finite b) 200 = Inr (Finite c)"
    and 4: "float_mul_num (Finite c) duration_min = Inr (Finite x)"
    and err: "\<bar>x - ?E\<bar> \<le> ?E / 2 ^ 50"
    and 6: "calculate_calories_burned initial_state weight_kg exercise duration_min
              = (Inr (PyFloat (Finite r)), initial_state)"
    and r: "fl (of_int (round_half_even (x * 100)) / 100) = Finite r"
    and rerr: "\<bar>r - of_int (round_half_even (x * 100)) / 100\<bar>
                 \<le> of_int (round_half_even (x * 100)) / 100 / 2 ^ 53"
    by blast
  let ?k = "round_half_even (x * 100)"
  have "\<bar>of_int ?k - x * 100\<bar> \<le> 1 / 2"
    by (rule round_half_even_error)
  then have near: "\<bar>of_int ?k / 100 - x\<bar> \<le> 1 / 200" by linarith
  have M: "5 / 2 \<le> M" "M \<le> 49 / 5"
    using met_literal_range [OF assms(1)] by simp_all
  have W: "30 \<le> ?W" "?W \<le> 200" and D: "5 \<le> ?D" "?D \<le> 300"
    using num_between_value [of 30 200 weight_kg] num_between_value [of 5 300 duration_min]
      assms(2,3) by simp_all
  note E = formula_range [OF M W D]
  from met_literal_tenths [OF assms(1)] obtain t :: int where t: "M = of_int t / 10"
    by blast
  have ints: "\<forall>w d. weight_kg = PyInt w \<and> duration_min = PyInt d \<longrightarrow>
                \<bar>of_int ?k / 100 - ?E\<bar> \<le> 1 / 200"
  proof (intro allI impI)
    fix w d assume wd: "weight_kg = PyInt w \<and> duration_min = PyInt d"
    then have N: "?E = of_int (t * 35 * w * d) / 20000"
      by (simp add: t)
    from nearest_cent [OF E N err] show "\<bar>of_int ?k / 100 - ?E\<bar> \<le> 1 / 200" .
  qed
  from 1 2 3 4 err 6 r near rerr ints show ?thesis by blast
qed

theorem calories_known_exercise_witness:
  "(''Cycling (moderate)'', 75 / 10) \<in> set MET_LITERALS
   \<and> num_between 30 200 (PyInt 80) \<and> num_between 5 300 (PyInt 45)
   \<and> (\<exists>a b c x r.
           float_mul (fl (75 / 10)) (fl (35 / 10)) = Finite a
           \<and> float_mul_num (Finite a) (PyInt 80) = Inr (Finite b)
           \<and> float_div_int (Finite b) 200 = Inr (Finite c)
           \<and> float_mul_num (Finite c) (PyInt 45) = Inr (Finite x)
           \<and> \<bar>x - 75 / 10 * (7 / 2) * num_value (PyInt 80) / 200 * num_value (PyInt 45)\<bar>
               \<le> 75 / 10 * (7 / 2) * num_value (PyInt 80) / 200 * num_value (PyInt 45) / 2 ^ 50
           \<and> calculate_calories_burned initial_state (PyInt 80) ''Cycling (moderate)'' (PyInt 45)
               = (Inr (PyFloat (Finite r)), initial_state)
           \<and> fl (of_int (round_half_even (x * 100)) / 100) = Finite r
           \<and> \<bar>of_int (round_half_even (x * 100)) / 100 - x\<bar> \<le> 1 / 200
           \<and> \<bar>r - of_int (round_half_even (x * 100)) / 100\<bar>
               \<le> of_int (round_half_even (x * 100)) / 100 / 2 ^ 53
           \<and> \<bar>of_int (round_half_even (x * 100)) / 100
                - 75 / 10 * (7 / 2) * num_value (PyInt 80) / 200 * num_value (PyInt 45)\<bar>
               \<le> 1 / 200)"
proof -
  have e: "(''Cycling (moderate)'', 75 / 10) \<in> set MET_LITERALS"
    by (simp add: MET_LITERALS_def)
  have w: "num_between 30 200 (PyInt 80)" and d: "num_between 5 300 (PyInt 45)"
    by simp_all
  let ?E = "75 / 10 * (7 / 2) * num_value (PyInt 80) / 200 * num_value (PyInt 45) :: rat"
  from calories_known_exercise [OF e w d] obtain a b c x r where
    1: "float_mul (fl (75 / 10)) (fl (35 / 10)) = Finite a"
    and 2: "float_mul_num (Finite a) (PyInt 80) = Inr (Finite b)"
    and 3: "float_div_int (Finite b) 200 = Inr (Finite c)"
    and 4: "float_mul_num (Finite c) (PyInt 45) = Inr (Finite x)"
    and 5: "\<bar>x - ?E\<bar> \<le> ?E / 2 ^ 50"
    and 6: "calculate_calories_burned initial_state (PyInt 80) ''Cycling (moderate)'' (PyInt 45)
              = (Inr (PyFloat (Finite r)), initial_state)"
    and 7: "fl (of_int (round_half_even (x * 100)) / 100) = Finite r"
    and 8: "\<bar>of_int (round_half_even (x * 100)) / 100 - x\<bar> \<le> 1 / 200"
    and 9: "\<bar>r - of_int (round_half_even (x * 100)) / 100\<bar>
              \<le> of_int (round_half_even (x * 100)) / 100 / 2 ^ 53"
    and ints: "\<forall>w d. PyInt 80 = PyInt w \<and> PyInt 45 = PyInt d \<longrightarrow>
                 \<bar>of_int (round_half_even (x * 100)) / 100 - ?E\<bar> \<le> 1 / 200"
    by blast
  from ints have 10: "\<bar>of_int (round_half_even (x * 100)) / 100 - ?E\<bar> \<le> 1 / 200"
    by blast
  from 1 2 3 4 5 6 7 8 9 10 have
    "\<exists>a b c x r.
           float_mul (fl (75 / 10)) (fl (35 / 10)) = Finite a
           \<and> float_mul_num (Finite a) (PyInt 80) = Inr (Finite b)
           \<and> float_div_int (Finite b) 200 = Inr (Finite c)
           \<and> float_mul_num (Finite c) (PyInt 45) = Inr (Finite x)
           \<and> \<bar>x - ?E\<bar> \<le> ?E / 2 ^ 50
           \<and> calculate_calories_burned initial_state (PyInt 80) ''Cycling (moderate)'' (PyInt 45)
               = (Inr (PyFloat (Finite r)), initial_state)
           \<and> fl (of_int (round_half_even (x * 100)) / 100) = Finite r
           \<and> \<bar>of_int (round_half_even (x * 100)) / 100 - x\<bar> \<le> 1 / 200
           \<and> \<bar>r - of_int (round_half_even (x * 100)) / 100\<bar>
               \<le> of_int (round_half_even (x * 100)) / 100 / 2 ^ 53
           \<and> \<bar>of_int (round_half_even (x * 100)) / 100 - ?E\<bar> \<le> 1 / 200"
    by blast
  with e w d show ?thesis by (intro conjI)
qed

section \<open>The calorie estimator on concrete inputs\<close>

lemma running_met: "map_of (exercise_met initial_state) ''Running (6 mph)'' = Some (fl (49 / 5))"
  by (simp add: initial_state_def EXERCISE_MET_def MET_LITERALS_def)

lemma fl_small_ints: "fl 30 = Finite 30" "fl 70 = Finite 70" "fl 200 = Finite 200"
  by (simp_all add: fl_normal [where k = 4] fl_normal [where k = 6] fl_normal [where k = 7] fl_eval)

lemma fl_running_steps:
  "fl (49 / 5) = Finite (2758454771764429 / 281474976710656)"
  "fl (7 / 2) = Finite (7 / 2)"
  "fl (19309183402351003 / 562949953421312) = Finite (4827295850587751 / 140737488355328)"
  "fl (168955354770571285 / 70368744177664) = Finite (5279854836580353 / 2199023255552)"
  "fl (5279854836580353 / 439804651110400) = Finite (1689553547705713 / 140737488355328)"
  "fl (25343303215585695 / 70368744177664) = Finite (791978225487053 / 2199023255552)"
  "fl (7203 / 20) = Finite (3167912901948211 / 8796093022208)"
  by (simp_all add: fl_normal [where k = 3] fl_normal [where k = 1] fl_normal [where k = 5]
        fl_normal [where k = 11] fl_normal [where k = 8] fl_eval)

text \<open>
  Claim C6. For a weight of 70 kg, the exercise \<^verbatim>\<open>Running (6 mph)\<close> and a duration of 30
  minutes the calorie estimator returns exactly 360.15, the float that the literal
  \<^verbatim>\<open>360.15\<close> denotes.
\<close>

theorem running_70kg_30min:
  "calculate_calories_burned initial_state (PyInt 70) ''Running (6 mph)'' (PyInt 30)
     = (Inr (PyFloat (fl (36015 / 100))), initial_state)
   \<and> fl (36015 / 100) = Finite (3167912901948211 / 8796093022208)"
  by (simp add: calculate_calories_burned_def running_met float_mul_num_def float_div_int_def
        fl_small_ints fl_running_steps fl_eval)

lemma fl_tie_steps:
  "fl 34 = Finite 34" "fl 105 = Finite 105"
  "fl (82064029459991767 / 70368744177664) = Finite (5129001841249485 / 4398046511104)"
  "fl (1025800368249897 / 175921860444160) = Finite (6565122356799341 / 1125899906842624)"
  "fl (689337847463930805 / 1125899906842624) = Finite (5385451933311959 / 8796093022208)"
  "fl (2449 / 4) = Finite (2449 / 4)"
  "fl (30613 / 50) = Finite (2692747956888535 / 4398046511104)"
  by (simp_all add: fl_normal [where k = 5] fl_normal [where k = 6] fl_normal [where k = 10]
        fl_normal [where k = 2] fl_normal [where k = 9] fl_eval)

text \<open>
  The claim C1 as the specification states it fails at an exact tie. For 34 kg and 105
  minutes of running the exact value of the formula is 612.255; rounded to two decimals,
  half-even or half-up, it is 612.26. The float product lies below 612.255, and the
  estimator returns 612.25.
\<close>

theorem running_34kg_105min_counterexample:
  "(''Running (6 mph)'', 98 / 10) \<in> set MET_LITERALS
   \<and> calculate_calories_burned initial_state (PyInt 34) ''Running (6 mph)'' (PyInt 105)
       = (Inr (PyFloat (Finite (61225 / 100))), initial_state)
   \<and> (98 / 10 :: rat) * (35 / 10) * 34 / 200 * 105 = 612255 / 1000
   \<and> spec_estimate round_half_even (98 / 10) 34 105 = 61226 / 100
   \<and> spec_estimate round_half_up (98 / 10) 34 105 = 61226 / 100
   \<and> fl (61226 / 100) \<noteq> Finite (61225 / 100)"
  by (simp add: MET_LITERALS_def calculate_calories_burned_def running_met float_mul_num_def
        float_div_int_def fl_running_steps fl_tie_steps fl_small_ints fl_eval
        spec_estimate_def round_half_up_def)

end
